theory Spec2Isabelle
  imports Main
begin

section \<open>Heap objects referred to by the compilation cache\<close>

text \<open>
  The cache of \<^verbatim>\<open>src/codegen/compilation-cache.cc\<close> stores references to heap
  objects. Only what the cache reads of them is kept: an object is undefined, a string
  (compared by content), a small integer, or some other heap object (known by its
  identity).
\<close>

datatype Object = Undefined | String string | Smi int | HeapObject nat

fun IsString :: "Object \<Rightarrow> bool" where
  "IsString (String s) = True"
| "IsString _ = False"

text \<open>\<^verbatim>\<open>String::Equals\<close>: called on two strings only; content equality.\<close>

fun String_Equals :: "Object \<Rightarrow> Object \<Rightarrow> bool" where
  "String_Equals (String a) (String b) = (a = b)"
| "String_Equals _ _ = False"

datatype LanguageMode = kSloppy | kStrict

type_synonym FixedArray = "Object list"

text \<open>
  A \<^verbatim>\<open>Script\<close> with the accessors \<^verbatim>\<open>HasOrigin\<close> reads, and the
  \<^verbatim>\<open>ScriptDetails\<close> of a request. A \<^verbatim>\<open>MaybeHandle\<close> is an option:
  \<open>None\<close> is the empty handle.
\<close>

record Script =
  script_name :: Object
  script_line_offset :: int
  script_column_offset :: int
  script_origin_options :: int
  script_host_defined_options :: FixedArray

record ScriptDetails =
  name_obj :: "Object option"
  line_offset :: int
  column_offset :: int
  origin_options :: int
  host_defined_options :: "FixedArray option"

record SharedFunctionInfo =
  sfi_id :: nat
  sfi_script :: Script
  sfi_language_mode :: LanguageMode

type_synonym FeedbackCell = nat

text \<open>
  A \<^verbatim>\<open>Context\<close> is a native context, or another context that knows its native
  context.
\<close>

datatype Context = NativeContext nat | FunctionContext nat nat

fun IsNativeContext :: "Context \<Rightarrow> bool" where
  "IsNativeContext (NativeContext n) = True"
| "IsNativeContext (FunctionContext c n) = False"

fun native_context :: "Context \<Rightarrow> Context" where
  "native_context (NativeContext n) = NativeContext n"
| "native_context (FunctionContext c n) = NativeContext n"

section \<open>The origin check\<close>

text \<open>
  The loop of \<^verbatim>\<open>HasOrigin\<close> over the host-defined options.
  \<^verbatim>\<open>Object::StrictEquals\<close> is not part of the sources and is a parameter.
\<close>

function HasOrigin_loop ::
  "(Object \<Rightarrow> Object \<Rightarrow> bool) \<Rightarrow> FixedArray \<Rightarrow> FixedArray \<Rightarrow> nat \<Rightarrow> nat \<Rightarrow> bool" where
  "HasOrigin_loop StrictEquals options script_options i len =
     (if i < len then
        (if \<not> StrictEquals (options ! i) (script_options ! i) then False
         else HasOrigin_loop StrictEquals options script_options (i + 1) len)
      else True)"
  by pat_completeness auto
termination
  by (relation "measure (\<lambda>(eq, a, b, i, len). len - i)") auto

declare HasOrigin_loop.simps [simp del]

definition HasOrigin ::
  "(Object \<Rightarrow> Object \<Rightarrow> bool) \<Rightarrow> SharedFunctionInfo \<Rightarrow> ScriptDetails \<Rightarrow> bool" where
  "HasOrigin StrictEquals function_info script_details =
     (let script = sfi_script function_info in
      case name_obj script_details of
        None \<Rightarrow> script_name script = Undefined
      | Some nm \<Rightarrow>
          if line_offset script_details \<noteq> script_line_offset script then False
          else if column_offset script_details \<noteq> script_column_offset script then False
          else if \<not> IsString nm \<or> \<not> IsString (script_name script) then False
          else if origin_options script_details \<noteq> script_origin_options script then False
          else if \<not> String_Equals nm (script_name script) then False
          else
            let options = (case host_defined_options script_details of
                             None \<Rightarrow> []
                           | Some a \<Rightarrow> a);
                script_options = script_host_defined_options script;
                len = length options
            in if len \<noteq> length script_options then False
               else HasOrigin_loop StrictEquals options script_options 0 len)"


section \<open>The cache table\<close>

text \<open>
  Modelled from the spec: \<^verbatim>\<open>CompilationCacheTable\<close>
  (\<^verbatim>\<open>src/objects/compilation-cache-table\<close> is not part of the sources). The spec
  takes it as an opaque keyed container: lookup by key, insert-or-replace (an existing
  key keeps its entry and gets the new value; the table that is returned is the one to
  use), removal of an entry, and iteration over the live entries. A table is the list of
  its live entries; a fresh table (\<^verbatim>\<open>CompilationCacheTable::New\<close>) is the empty list.
\<close>

type_synonym ('k, 'v) CompilationCacheTable = "('k \<times> 'v) list"

fun table_insert :: "'k \<Rightarrow> 'v \<Rightarrow> ('k, 'v) CompilationCacheTable \<Rightarrow> ('k, 'v) CompilationCacheTable" where
  "table_insert k v [] = [(k, v)]"
| "table_insert k v ((k', v') # es) =
     (if k' = k then (k, v) # es else (k', v') # table_insert k v es)"

text \<open>
  Modelled from the spec: \<^verbatim>\<open>CompilationCacheTable::LookupScript\<close> and
  \<^verbatim>\<open>PutScript\<close>. The script table is keyed by source text and language mode.
\<close>

type_synonym ScriptTable = "(string \<times> LanguageMode, SharedFunctionInfo) CompilationCacheTable"

definition CompilationCacheTable_LookupScript ::
  "ScriptTable \<Rightarrow> string \<Rightarrow> LanguageMode \<Rightarrow> SharedFunctionInfo option" where
  "CompilationCacheTable_LookupScript table source language_mode =
     map_of table (source, language_mode)"

definition CompilationCacheTable_PutScript ::
  "ScriptTable \<Rightarrow> string \<Rightarrow> LanguageMode \<Rightarrow> SharedFunctionInfo \<Rightarrow> ScriptTable" where
  "CompilationCacheTable_PutScript table source language_mode function_info =
     table_insert (source, language_mode) function_info table"

text \<open>
  Modelled from the spec: \<^verbatim>\<open>CompilationCacheTable::LookupRegExp\<close> and
  \<^verbatim>\<open>PutRegExp\<close>. The regexp table is keyed by pattern text and flags; a lookup gives
  the data or nothing (\<^verbatim>\<open>undefined\<close>, which is not a \<^verbatim>\<open>FixedArray\<close>).
\<close>

type_synonym RegExpTable = "(string \<times> int, FixedArray) CompilationCacheTable"

definition CompilationCacheTable_LookupRegExp ::
  "RegExpTable \<Rightarrow> string \<Rightarrow> int \<Rightarrow> FixedArray option" where
  "CompilationCacheTable_LookupRegExp table source flags = map_of table (source, flags)"

definition CompilationCacheTable_PutRegExp ::
  "RegExpTable \<Rightarrow> string \<Rightarrow> int \<Rightarrow> FixedArray \<Rightarrow> RegExpTable" where
  "CompilationCacheTable_PutRegExp table source flags data =
     table_insert (source, flags) data table"

text \<open>
  Modelled from the spec: \<^verbatim>\<open>CompilationCacheTable::LookupEval\<close> and
  \<^verbatim>\<open>PutEval\<close>, and the entries that \<^verbatim>\<open>CompilationCacheEval::Age\<close> iterates.
  In the eval table an entry is the sentinel (its key is a number, the hash; its value a
  countdown), or a structural entry (its key is the source text, the enclosing function,
  the native context, the language mode and the position; its value the function and its
  feedback cell). \<^verbatim>\<open>CompilationCacheEval::Put\<close> passes no language mode: the key of
  a Put has the language mode of the function that is put.
\<close>

type_synonym EvalKey = "string \<times> SharedFunctionInfo \<times> Context \<times> LanguageMode \<times> int"

datatype EvalEntry =
  NumberEntry int int
| InfoEntry EvalKey SharedFunctionInfo FeedbackCell

type_synonym EvalTable = "EvalEntry list"

type_synonym InfoCellPair = "(SharedFunctionInfo \<times> FeedbackCell) option"

fun has_shared :: "InfoCellPair \<Rightarrow> bool" where
  "has_shared None = False"
| "has_shared (Some p) = True"

fun eval_find :: "EvalTable \<Rightarrow> EvalKey \<Rightarrow> InfoCellPair" where
  "eval_find [] key = None"
| "eval_find (NumberEntry h n # es) key = eval_find es key"
| "eval_find (InfoEntry k info cell # es) key =
     (if k = key then Some (info, cell) else eval_find es key)"

fun eval_insert :: "EvalKey \<Rightarrow> SharedFunctionInfo \<Rightarrow> FeedbackCell \<Rightarrow> EvalTable \<Rightarrow> EvalTable" where
  "eval_insert key info cell [] = [InfoEntry key info cell]"
| "eval_insert key info cell (NumberEntry h n # es) =
     NumberEntry h n # eval_insert key info cell es"
| "eval_insert key info cell (InfoEntry k i c # es) =
     (if k = key then InfoEntry key info cell # es
      else InfoEntry k i c # eval_insert key info cell es)"

definition CompilationCacheTable_LookupEval ::
  "EvalTable \<Rightarrow> string \<Rightarrow> SharedFunctionInfo \<Rightarrow> Context \<Rightarrow> LanguageMode \<Rightarrow> int \<Rightarrow> InfoCellPair" where
  "CompilationCacheTable_LookupEval table source outer_info native_ctx language_mode position =
     eval_find table (source, outer_info, native_ctx, language_mode, position)"

definition CompilationCacheTable_PutEval ::
  "EvalTable \<Rightarrow> string \<Rightarrow> SharedFunctionInfo \<Rightarrow> SharedFunctionInfo \<Rightarrow> Context \<Rightarrow>
   FeedbackCell \<Rightarrow> int \<Rightarrow> EvalTable" where
  "CompilationCacheTable_PutEval table source outer_info function_info native_ctx
     feedback_cell position =
     eval_insert (source, outer_info, native_ctx, sfi_language_mode function_info, position)
       function_info feedback_cell table"

section \<open>The regions\<close>

text \<open>
  The hit and miss counters of the isolate (\<^verbatim>\<open>isolate()->counters()\<close>).
\<close>

record Counters =
  compilation_cache_hits :: int
  compilation_cache_misses :: int

definition Increment_hits :: "Counters \<Rightarrow> Counters" where
  "Increment_hits counters =
     counters\<lparr>compilation_cache_hits := compilation_cache_hits counters + 1\<rparr>"

definition Increment_misses :: "Counters \<Rightarrow> Counters" where
  "Increment_misses counters =
     counters\<lparr>compilation_cache_misses := compilation_cache_misses counters + 1\<rparr>"

subsection \<open>Script and eval: one table, absent (\<open>None\<close>) or present\<close>

text \<open>
  \<^verbatim>\<open>CompilationCacheEvalOrScript::GetTable\<close>: an absent table gives a fresh table,
  which is not stored in \<^verbatim>\<open>table_\<close>.
\<close>

definition CompilationCacheEvalOrScript_GetTable :: "'e list option \<Rightarrow> 'e list" where
  "CompilationCacheEvalOrScript_GetTable table_slot =
     (case table_slot of None \<Rightarrow> [] | Some table \<Rightarrow> table)"

definition CompilationCacheEvalOrScript_Clear :: "'e list option \<Rightarrow> 'e list option" where
  "CompilationCacheEvalOrScript_Clear table_slot = None"

text \<open>
  \<^verbatim>\<open>CompilationCacheScript::Lookup\<close> returns the result and the counters;
  \<^verbatim>\<open>table_\<close> is not assigned.
\<close>

definition CompilationCacheScript_Lookup ::
  "(Object \<Rightarrow> Object \<Rightarrow> bool) \<Rightarrow> ScriptTable option \<Rightarrow> Counters \<Rightarrow> string \<Rightarrow> ScriptDetails \<Rightarrow>
   LanguageMode \<Rightarrow> SharedFunctionInfo option \<times> Counters" where
  "CompilationCacheScript_Lookup StrictEquals table_slot counters source script_details language_mode =
     (let table = CompilationCacheEvalOrScript_GetTable table_slot;
          probe = CompilationCacheTable_LookupScript table source language_mode;
          result = (case probe of
                      None \<Rightarrow> None
                    | Some function_info \<Rightarrow>
                        if HasOrigin StrictEquals function_info script_details
                        then Some function_info else None)
      in case result of
           Some function_info \<Rightarrow> (result, Increment_hits counters)
         | None \<Rightarrow> (result, Increment_misses counters))"

definition CompilationCacheScript_Put ::
  "ScriptTable option \<Rightarrow> string \<Rightarrow> LanguageMode \<Rightarrow> SharedFunctionInfo \<Rightarrow> ScriptTable option" where
  "CompilationCacheScript_Put table_slot source language_mode function_info =
     (let table = CompilationCacheEvalOrScript_GetTable table_slot
      in Some (CompilationCacheTable_PutScript table source language_mode function_info))"

definition CompilationCacheEval_Lookup ::
  "EvalTable option \<Rightarrow> Counters \<Rightarrow> string \<Rightarrow> SharedFunctionInfo \<Rightarrow> Context \<Rightarrow> LanguageMode \<Rightarrow>
   int \<Rightarrow> InfoCellPair \<times> Counters" where
  "CompilationCacheEval_Lookup table_slot counters source outer_info native_ctx language_mode position =
     (let table = CompilationCacheEvalOrScript_GetTable table_slot;
          result = CompilationCacheTable_LookupEval table source outer_info native_ctx
                     language_mode position
      in if has_shared result then (result, Increment_hits counters)
         else (result, Increment_misses counters))"

definition CompilationCacheEval_Put ::
  "EvalTable option \<Rightarrow> string \<Rightarrow> SharedFunctionInfo \<Rightarrow> SharedFunctionInfo \<Rightarrow> Context \<Rightarrow>
   FeedbackCell \<Rightarrow> int \<Rightarrow> EvalTable option" where
  "CompilationCacheEval_Put table_slot source outer_info function_info native_ctx feedback_cell position =
     (let table = CompilationCacheEvalOrScript_GetTable table_slot
      in Some (CompilationCacheTable_PutEval table source outer_info function_info native_ctx
                 feedback_cell position))"

text \<open>
  \<^verbatim>\<open>CompilationCacheEval::Age\<close>. The loop visits every live entry once and touches
  that entry only: it is the recursion over the entries. The parameter \<open>old\<close> stands for
  the heap's answer to
  \<^verbatim>\<open>info.HasBytecodeArray() && info.GetBytecodeArray(isolate()).IsOld()\<close> at the time
  of the call. \<^verbatim>\<open>DCHECK\<close>s are no-ops of the release build and are not modelled.
\<close>

fun CompilationCacheEval_Age_entries ::
  "(SharedFunctionInfo \<Rightarrow> bool) \<Rightarrow> EvalTable \<Rightarrow> EvalTable" where
  "CompilationCacheEval_Age_entries old [] = []"
| "CompilationCacheEval_Age_entries old (NumberEntry h n # es) =
     (let new_count = n - 1
      in if new_count = 0 then CompilationCacheEval_Age_entries old es
         else NumberEntry h new_count # CompilationCacheEval_Age_entries old es)"
| "CompilationCacheEval_Age_entries old (InfoEntry k info cell # es) =
     (if old info then CompilationCacheEval_Age_entries old es
      else InfoEntry k info cell # CompilationCacheEval_Age_entries old es)"

definition CompilationCacheEval_Age ::
  "(SharedFunctionInfo \<Rightarrow> bool) \<Rightarrow> EvalTable option \<Rightarrow> EvalTable option" where
  "CompilationCacheEval_Age old table_slot =
     (case table_slot of
        None \<Rightarrow> None
      | Some table \<Rightarrow> Some (CompilationCacheEval_Age_entries old table))"

subsection \<open>RegExp: an array of generations\<close>

text \<open>
  \<^verbatim>\<open>tables_\<close> is an array of \<^verbatim>\<open>kGenerations\<close> slots, each undefined
  (\<open>None\<close>) or a table. The constant is declared in the header, which is not part of the
  sources: it is the length of the list, and \<^verbatim>\<open>static_assert(kGenerations > 1)\<close>
  says that the list has at least two slots.

  \<^verbatim>\<open>CompilationCacheRegExp::GetTable\<close> stores the fresh table in the slot. It returns
  the table and the updated array. Its callers ask for generations below
  \<^verbatim>\<open>kGenerations\<close> only (\<^verbatim>\<open>DCHECK_LT(generation, kGenerations)\<close>).
\<close>

definition CompilationCacheRegExp_GetTable ::
  "RegExpTable option list \<Rightarrow> nat \<Rightarrow> RegExpTable \<times> RegExpTable option list" where
  "CompilationCacheRegExp_GetTable tables generation =
     (case tables ! generation of
        None \<Rightarrow> ([], tables[generation := Some []])
      | Some table \<Rightarrow> (table, tables))"

definition CompilationCacheRegExp_Put ::
  "RegExpTable option list \<Rightarrow> string \<Rightarrow> int \<Rightarrow> FixedArray \<Rightarrow> RegExpTable option list" where
  "CompilationCacheRegExp_Put tables source flags data =
     (case CompilationCacheRegExp_GetTable tables 0 of
        (table, tables') \<Rightarrow>
          tables'[0 := Some (CompilationCacheTable_PutRegExp table source flags data)])"

text \<open>
  The probing loop of \<^verbatim>\<open>CompilationCacheRegExp::Lookup\<close>: it returns the result, the
  value of \<^verbatim>\<open>generation\<close> when the loop is left, and the array.
\<close>

function CompilationCacheRegExp_Lookup_loop ::
  "RegExpTable option list \<Rightarrow> string \<Rightarrow> int \<Rightarrow> nat \<Rightarrow>
   FixedArray option \<times> nat \<times> RegExpTable option list" where
  "CompilationCacheRegExp_Lookup_loop tables source flags generation =
     (if generation < length tables then
        (case CompilationCacheRegExp_GetTable tables generation of
           (table, tables') \<Rightarrow>
             (case CompilationCacheTable_LookupRegExp table source flags of
                Some data \<Rightarrow> (Some data, generation, tables')
              | None \<Rightarrow> CompilationCacheRegExp_Lookup_loop tables' source flags (generation + 1)))
      else (None, generation, tables))"
  by pat_completeness auto
termination
  by (relation "measure (\<lambda>(tables, source, flags, generation). length tables - generation)")
    (auto simp: CompilationCacheRegExp_GetTable_def split: option.splits)

declare CompilationCacheRegExp_Lookup_loop.simps [simp del]

definition CompilationCacheRegExp_Lookup ::
  "RegExpTable option list \<Rightarrow> Counters \<Rightarrow> string \<Rightarrow> int \<Rightarrow>
   FixedArray option \<times> RegExpTable option list \<times> Counters" where
  "CompilationCacheRegExp_Lookup tables counters source flags =
     (case CompilationCacheRegExp_Lookup_loop tables source flags 0 of
        (Some data, generation, tables') \<Rightarrow>
          (Some data,
           (if generation \<noteq> 0 then CompilationCacheRegExp_Put tables' source flags data
            else tables'),
           Increment_hits counters)
      | (None, generation, tables') \<Rightarrow> (None, tables', Increment_misses counters))"

text \<open>\<^verbatim>\<open>CompilationCacheRegExp::Age\<close>: the loop counts \<open>i\<close> down to 1.\<close>

fun CompilationCacheRegExp_Age_loop :: "RegExpTable option list \<Rightarrow> nat \<Rightarrow> RegExpTable option list" where
  "CompilationCacheRegExp_Age_loop tables 0 = tables"
| "CompilationCacheRegExp_Age_loop tables (Suc i) =
     CompilationCacheRegExp_Age_loop (tables[Suc i := tables ! i]) i"

definition CompilationCacheRegExp_Age :: "RegExpTable option list \<Rightarrow> RegExpTable option list" where
  "CompilationCacheRegExp_Age tables =
     (CompilationCacheRegExp_Age_loop tables (length tables - 1))[0 := None]"

definition CompilationCacheRegExp_Clear :: "RegExpTable option list \<Rightarrow> RegExpTable option list" where
  "CompilationCacheRegExp_Clear tables = replicate (length tables) None"

section \<open>The cache\<close>

text \<open>
  The members \<^verbatim>\<open>script_\<close>, \<^verbatim>\<open>eval_global_\<close>, \<^verbatim>\<open>eval_contextual_\<close> and
  \<^verbatim>\<open>reg_exp_\<close> are given by the table slots they hold;
  \<^verbatim>\<open>enabled_script_and_eval_\<close> is the flag. The counters belong to the isolate and
  are carried with the state.
\<close>

record CompilationCache =
  script_table :: "ScriptTable option"
  eval_global_table :: "EvalTable option"
  eval_contextual_table :: "EvalTable option"
  reg_exp_tables :: "RegExpTable option list"
  enabled_script_and_eval :: bool
  counters :: Counters

definition IsEnabledScriptAndEval :: "CompilationCache \<Rightarrow> bool" where
  "IsEnabledScriptAndEval c = enabled_script_and_eval c"

definition CompilationCache_LookupScript ::
  "(Object \<Rightarrow> Object \<Rightarrow> bool) \<Rightarrow> CompilationCache \<Rightarrow> string \<Rightarrow> ScriptDetails \<Rightarrow> LanguageMode \<Rightarrow>
   SharedFunctionInfo option \<times> CompilationCache" where
  "CompilationCache_LookupScript StrictEquals c source script_details language_mode =
     (if \<not> IsEnabledScriptAndEval c then (None, c)
      else
        (case CompilationCacheScript_Lookup StrictEquals (script_table c) (counters c) source
                script_details language_mode of
           (result, counters') \<Rightarrow> (result, c\<lparr>counters := counters'\<rparr>)))"

definition CompilationCache_LookupEval ::
  "CompilationCache \<Rightarrow> string \<Rightarrow> SharedFunctionInfo \<Rightarrow> Context \<Rightarrow> LanguageMode \<Rightarrow> int \<Rightarrow>
   InfoCellPair \<times> CompilationCache" where
  "CompilationCache_LookupEval c source outer_info ctx language_mode position =
     (if \<not> IsEnabledScriptAndEval c then (None, c)
      else if IsNativeContext ctx then
        (case CompilationCacheEval_Lookup (eval_global_table c) (counters c) source outer_info ctx
                language_mode position of
           (result, counters') \<Rightarrow> (result, c\<lparr>counters := counters'\<rparr>))
      else
        (case CompilationCacheEval_Lookup (eval_contextual_table c) (counters c) source outer_info
                (native_context ctx) language_mode position of
           (result, counters') \<Rightarrow> (result, c\<lparr>counters := counters'\<rparr>)))"

definition CompilationCache_LookupRegExp ::
  "CompilationCache \<Rightarrow> string \<Rightarrow> int \<Rightarrow> FixedArray option \<times> CompilationCache" where
  "CompilationCache_LookupRegExp c source flags =
     (case CompilationCacheRegExp_Lookup (reg_exp_tables c) (counters c) source flags of
        (result, tables', counters') \<Rightarrow>
          (result, c\<lparr>reg_exp_tables := tables', counters := counters'\<rparr>))"

definition CompilationCache_PutScript ::
  "CompilationCache \<Rightarrow> string \<Rightarrow> LanguageMode \<Rightarrow> SharedFunctionInfo \<Rightarrow> CompilationCache" where
  "CompilationCache_PutScript c source language_mode function_info =
     (if \<not> IsEnabledScriptAndEval c then c
      else c\<lparr>script_table := CompilationCacheScript_Put (script_table c) source language_mode function_info\<rparr>)"

definition CompilationCache_PutEval ::
  "CompilationCache \<Rightarrow> string \<Rightarrow> SharedFunctionInfo \<Rightarrow> Context \<Rightarrow> SharedFunctionInfo \<Rightarrow>
   FeedbackCell \<Rightarrow> int \<Rightarrow> CompilationCache" where
  "CompilationCache_PutEval c source outer_info ctx function_info feedback_cell position =
     (if \<not> IsEnabledScriptAndEval c then c
      else if IsNativeContext ctx then
        c\<lparr>eval_global_table := CompilationCacheEval_Put (eval_global_table c) source outer_info
                            function_info ctx feedback_cell position\<rparr>
      else
        c\<lparr>eval_contextual_table := CompilationCacheEval_Put (eval_contextual_table c) source outer_info
                                function_info (native_context ctx) feedback_cell position\<rparr>)"

definition CompilationCache_PutRegExp ::
  "CompilationCache \<Rightarrow> string \<Rightarrow> int \<Rightarrow> FixedArray \<Rightarrow> CompilationCache" where
  "CompilationCache_PutRegExp c source flags data =
     c\<lparr>reg_exp_tables := CompilationCacheRegExp_Put (reg_exp_tables c) source flags data\<rparr>"

definition CompilationCache_Clear :: "CompilationCache \<Rightarrow> CompilationCache" where
  "CompilationCache_Clear c =
     c\<lparr>script_table := CompilationCacheEvalOrScript_Clear (script_table c),
       eval_global_table := CompilationCacheEvalOrScript_Clear (eval_global_table c),
       eval_contextual_table := CompilationCacheEvalOrScript_Clear (eval_contextual_table c),
       reg_exp_tables := CompilationCacheRegExp_Clear (reg_exp_tables c)\<rparr>"

definition EnableScriptAndEval :: "CompilationCache \<Rightarrow> CompilationCache" where
  "EnableScriptAndEval c = c\<lparr>enabled_script_and_eval := True\<rparr>"

definition DisableScriptAndEval :: "CompilationCache \<Rightarrow> CompilationCache" where
  "DisableScriptAndEval c = CompilationCache_Clear (c\<lparr>enabled_script_and_eval := False\<rparr>)"

section \<open>Observations and example values\<close>

text \<open>
  What a generation of the regexp region holds for a key: nothing when the slot is
  absent, else what the table holds. \<open>table_or_new\<close> is the table a slot stands for.
\<close>

definition table_or_new :: "'e list option \<Rightarrow> 'e list" where
  "table_or_new slot = (case slot of None \<Rightarrow> [] | Some table \<Rightarrow> table)"

definition generation_holds ::
  "RegExpTable option list \<Rightarrow> nat \<Rightarrow> string \<Rightarrow> int \<Rightarrow> FixedArray option" where
  "generation_holds tables g source flags =
     CompilationCacheTable_LookupRegExp (table_or_new (tables ! g)) source flags"

text \<open>
  The array after the first \<open>n\<close> generations were asked for with
  \<^verbatim>\<open>GetTable\<close>: each of these slots holds a table, a fresh one where it was absent.
\<close>

definition allocate_generations :: "RegExpTable option list \<Rightarrow> nat \<Rightarrow> RegExpTable option list" where
  "allocate_generations tables n =
     map (\<lambda>slot. Some (table_or_new slot)) (take n tables) @ drop n tables"

text \<open>
  The calls a user of the regexp region makes between two collections, and their effect
  on the array and the counters.
\<close>

datatype RegExpCall = CallPut string int FixedArray | CallLookup string int

fun call_key :: "RegExpCall \<Rightarrow> string \<times> int" where
  "call_key (CallPut source flags data) = (source, flags)"
| "call_key (CallLookup source flags) = (source, flags)"

fun RegExp_call ::
  "RegExpCall \<Rightarrow> RegExpTable option list \<times> Counters \<Rightarrow> RegExpTable option list \<times> Counters" where
  "RegExp_call (CallPut source flags data) (tables, k) =
     (CompilationCacheRegExp_Put tables source flags data, k)"
| "RegExp_call (CallLookup source flags) (tables, k) =
     snd (CompilationCacheRegExp_Lookup tables k source flags)"

definition RegExp_calls ::
  "RegExpCall list \<Rightarrow> RegExpTable option list \<times> Counters \<Rightarrow> RegExpTable option list \<times> Counters" where
  "RegExp_calls calls state = fold RegExp_call calls state"

text \<open>The countdown values of the entries of an eval table whose key is the number \<open>h\<close>.\<close>

fun sentinel_counts :: "EvalTable \<Rightarrow> int \<Rightarrow> int list" where
  "sentinel_counts [] h = []"
| "sentinel_counts (NumberEntry h' n # es) h =
     (if h' = h then n # sentinel_counts es h else sentinel_counts es h)"
| "sentinel_counts (InfoEntry k info cell # es) h = sentinel_counts es h"

text \<open>
  One of the two counters went up by one and the other one stayed.
\<close>

definition exactly_one_incremented :: "Counters \<Rightarrow> Counters \<Rightarrow> bool" where
  "exactly_one_incremented before after =
     ((compilation_cache_hits after = compilation_cache_hits before + 1 \<and>
       compilation_cache_misses after = compilation_cache_misses before) \<or>
      (compilation_cache_hits after = compilation_cache_hits before \<and>
       compilation_cache_misses after = compilation_cache_misses before + 1))"

text \<open>Two scripts with the same text, and requests with their provenance.\<close>

definition example_script_A :: Script where
  "example_script_A =
     \<lparr>script_name = String ''a.js'', script_line_offset = 0, script_column_offset = 0,
      script_origin_options = 0, script_host_defined_options = [Smi 1]\<rparr>"

definition example_info_A :: SharedFunctionInfo where
  "example_info_A = \<lparr>sfi_id = 1, sfi_script = example_script_A, sfi_language_mode = kSloppy\<rparr>"

definition example_details_A :: ScriptDetails where
  "example_details_A =
     \<lparr>name_obj = Some (String ''a.js''), line_offset = 0, column_offset = 0,
      origin_options = 0, host_defined_options = Some [Smi 1]\<rparr>"

definition example_details_B :: ScriptDetails where
  "example_details_B =
     \<lparr>name_obj = Some (String ''b.js''), line_offset = 0, column_offset = 0,
      origin_options = 0, host_defined_options = Some [Smi 1]\<rparr>"

text \<open>A script without a name, and a request without a name whose other fields differ.\<close>

definition example_script_unnamed :: Script where
  "example_script_unnamed =
     \<lparr>script_name = Undefined, script_line_offset = 3, script_column_offset = 7,
      script_origin_options = 1, script_host_defined_options = [Smi 1]\<rparr>"

definition example_info_unnamed :: SharedFunctionInfo where
  "example_info_unnamed =
     \<lparr>sfi_id = 2, sfi_script = example_script_unnamed, sfi_language_mode = kSloppy\<rparr>"

definition example_details_unnamed :: ScriptDetails where
  "example_details_unnamed =
     \<lparr>name_obj = None, line_offset = 0, column_offset = 0,
      origin_options = 0, host_defined_options = None\<rparr>"

text \<open>A script whose name is not a string, and a request with exactly its provenance.\<close>

definition example_script_numbered :: Script where
  "example_script_numbered =
     \<lparr>script_name = Smi 5, script_line_offset = 0, script_column_offset = 0,
      script_origin_options = 0, script_host_defined_options = []\<rparr>"

definition example_info_numbered :: SharedFunctionInfo where
  "example_info_numbered =
     \<lparr>sfi_id = 3, sfi_script = example_script_numbered, sfi_language_mode = kSloppy\<rparr>"

definition example_details_numbered :: ScriptDetails where
  "example_details_numbered =
     \<lparr>name_obj = Some (Smi 5), line_offset = 0, column_offset = 0,
      origin_options = 0, host_defined_options = Some []\<rparr>"

text \<open>A cache with two regexp generations after \<^verbatim>\<open>Clear\<close>, enabled and disabled.\<close>

definition example_cache :: CompilationCache where
  "example_cache =
     \<lparr>script_table = None, eval_global_table = None, eval_contextual_table = None,
      reg_exp_tables = [None, None], enabled_script_and_eval = True,
      counters = \<lparr>compilation_cache_hits = 0, compilation_cache_misses = 0\<rparr>\<rparr>"

definition example_cache_disabled :: CompilationCache where
  "example_cache_disabled = example_cache\<lparr>enabled_script_and_eval := False\<rparr>"

section \<open>Theorems\<close>

lemma HasOrigin_loop_all:
  "HasOrigin_loop eq a b i n = (\<forall>j. i \<le> j \<and> j < n \<longrightarrow> eq (a ! j) (b ! j))"
proof (induction eq a b i n rule: HasOrigin_loop.induct)
  case (1 eq a b i n)
  show ?case
  proof (cases "i < n")
    case False
    then show ?thesis by (subst HasOrigin_loop.simps) auto
  next
    case True
    note lt = this
    show ?thesis
    proof (cases "eq (a ! i) (b ! i)")
      case False
      with lt show ?thesis by (subst HasOrigin_loop.simps) auto
    next
      case True
      have step: "HasOrigin_loop eq a b i n = HasOrigin_loop eq a b (i + 1) n"
        using lt True by (subst HasOrigin_loop.simps) simp
      have "(\<forall>j. i + 1 \<le> j \<and> j < n \<longrightarrow> eq (a ! j) (b ! j)) =
            (\<forall>j. i \<le> j \<and> j < n \<longrightarrow> eq (a ! j) (b ! j))"
        using True by (metis Suc_eq_plus1 Suc_leI le_neq_implies_less Suc_leD)
      with step "1.IH" [OF lt] True show ?thesis by simp
    qed
  qed
qed

subsection \<open>The origin check\<close>

text \<open>
  C8. \<^verbatim>\<open>HasOrigin\<close> (the spec's OriginValidator.Matches) returns a match exactly
  when: if the request has no name, the name of the candidate script is absent; and
  otherwise the line and the column offsets are equal, the origin flags are equal, both
  names are strings with the same content, and the host-defined options (none for a
  request without them) have the same length with every pair of corresponding elements
  equal under \<^verbatim>\<open>StrictEquals\<close>.
\<close>

theorem HasOrigin_matches_iff:
  "HasOrigin StrictEquals function_info script_details =
     (case name_obj script_details of
        None \<Rightarrow> script_name (sfi_script function_info) = Undefined
      | Some nm \<Rightarrow>
          line_offset script_details = script_line_offset (sfi_script function_info) \<and>
          column_offset script_details = script_column_offset (sfi_script function_info) \<and>
          origin_options script_details = script_origin_options (sfi_script function_info) \<and>
          (\<exists>s. nm = String s \<and> script_name (sfi_script function_info) = String s) \<and>
          list_all2 StrictEquals
            (case host_defined_options script_details of None \<Rightarrow> [] | Some a \<Rightarrow> a)
            (script_host_defined_options (sfi_script function_info)))"
proof (cases "name_obj script_details")
  case None
  then show ?thesis by (simp add: HasOrigin_def)
next
  case (Some nm)
  define opts where
    "opts = (case host_defined_options script_details of None \<Rightarrow> [] | Some a \<Rightarrow> a)"
  define sopts where "sopts = script_host_defined_options (sfi_script function_info)"
  have loop: "(length opts = length sopts \<and>
               HasOrigin_loop StrictEquals opts sopts 0 (length opts)) =
              list_all2 StrictEquals opts sopts"
    unfolding HasOrigin_loop_all list_all2_conv_all_nth by simp
  have names: "(IsString nm \<and> IsString (script_name (sfi_script function_info)) \<and>
                String_Equals nm (script_name (sfi_script function_info))) =
               (\<exists>s. nm = String s \<and> script_name (sfi_script function_info) = String s)"
    by (cases nm; cases "script_name (sfi_script function_info)") auto
  have "HasOrigin StrictEquals function_info script_details =
        (line_offset script_details = script_line_offset (sfi_script function_info) \<and>
         column_offset script_details = script_column_offset (sfi_script function_info) \<and>
         origin_options script_details = script_origin_options (sfi_script function_info) \<and>
         (IsString nm \<and> IsString (script_name (sfi_script function_info)) \<and>
          String_Equals nm (script_name (sfi_script function_info))) \<and>
         (length opts = length sopts \<and> HasOrigin_loop StrictEquals opts sopts 0 (length opts)))"
    unfolding HasOrigin_def Let_def Some opts_def sopts_def option.case
    by (simp only: if_False if_True split: if_split) blast
  then show ?thesis
    unfolding names loop by (simp add: Some opts_def sopts_def)
qed

theorem HasOrigin_matches_iff_witness:
  "HasOrigin (=) example_info_A example_details_A \<and>
   \<not> HasOrigin (=) example_info_A example_details_B"
  using HasOrigin_matches_iff [of "(=)" example_info_A example_details_A]
    HasOrigin_matches_iff [of "(=)" example_info_A example_details_B]
  by (simp add: example_info_A_def example_details_A_def example_details_B_def
      example_script_A_def)

text \<open>
  C10. If the request has no name, \<^verbatim>\<open>HasOrigin\<close> is decided by the candidate
  script's name alone: it matches exactly when that name is absent, whatever the
  offsets, the origin flags and the host-defined options are. The witness is a script
  and a request that both lack a name and differ in all of these.
\<close>

theorem HasOrigin_no_name:
  "name_obj script_details = None \<Longrightarrow>
   HasOrigin StrictEquals function_info script_details =
     (script_name (sfi_script function_info) = Undefined)"
  by (simp add: HasOrigin_def)

theorem HasOrigin_no_name_witness:
  "name_obj example_details_unnamed = None \<and>
   line_offset example_details_unnamed \<noteq> script_line_offset (sfi_script example_info_unnamed) \<and>
   column_offset example_details_unnamed \<noteq> script_column_offset (sfi_script example_info_unnamed) \<and>
   origin_options example_details_unnamed \<noteq> script_origin_options (sfi_script example_info_unnamed) \<and>
   \<not> list_all2 (=) (case host_defined_options example_details_unnamed of None \<Rightarrow> [] | Some a \<Rightarrow> a)
        (script_host_defined_options (sfi_script example_info_unnamed)) \<and>
   HasOrigin (=) example_info_unnamed example_details_unnamed"
  using HasOrigin_no_name [of example_details_unnamed "(=)" example_info_unnamed]
  by (simp add: example_info_unnamed_def example_details_unnamed_def example_script_unnamed_def)

subsection \<open>The regexp region: tables and the probing loop\<close>

lemma map_of_table_insert: "map_of (table_insert k v t) = (map_of t)(k \<mapsto> v)"
  by (induction t) auto

lemma GetTable_eq:
  "CompilationCacheRegExp_GetTable tables g =
     (table_or_new (tables ! g), tables[g := Some (table_or_new (tables ! g))])"
proof (cases "tables ! g")
  case None
  then show ?thesis
    by (simp add: CompilationCacheRegExp_GetTable_def table_or_new_def)
next
  case (Some table)
  then have "tables[g := Some table] = tables"
    by (metis list_update_id)
  with Some show ?thesis
    by (simp add: CompilationCacheRegExp_GetTable_def table_or_new_def)
qed

lemma RegExp_Put_eq:
  "CompilationCacheRegExp_Put tables source flags data =
     tables[0 := Some (CompilationCacheTable_PutRegExp (table_or_new (tables ! 0)) source flags data)]"
  by (simp add: CompilationCacheRegExp_Put_def GetTable_eq)

lemma Lookup_loop_result:
  "CompilationCacheRegExp_Lookup_loop tables source flags g = (r, gen, tables') \<Longrightarrow>
     length tables' = length tables \<and>
     (\<forall>j < length tables. tables' ! j =
        (if g \<le> j \<and> j \<le> gen then Some (table_or_new (tables ! j)) else tables ! j)) \<and>
     (\<forall>j. g \<le> j \<and> j < gen \<and> j < length tables \<longrightarrow> generation_holds tables j source flags = None) \<and>
     (case r of
        Some data \<Rightarrow> g \<le> gen \<and> gen < length tables \<and>
                     generation_holds tables gen source flags = Some data
      | None \<Rightarrow> gen = max g (length tables))"
proof (induction tables source flags g arbitrary: r gen tables'
    rule: CompilationCacheRegExp_Lookup_loop.induct)
  case (1 tables source flags generation)
  show ?case
  proof (cases "generation < length tables")
    case False
    with "1.prems" show ?thesis
      by (subst (asm) CompilationCacheRegExp_Lookup_loop.simps) auto
  next
    case True
    define table where "table = table_or_new (tables ! generation)"
    define tables1 where "tables1 = tables[generation := Some table]"
    have gt: "CompilationCacheRegExp_GetTable tables generation = (table, tables1)"
      by (simp add: GetTable_eq table_def tables1_def)
    show ?thesis
    proof (cases "CompilationCacheTable_LookupRegExp table source flags")
      case (Some data)
      have "(r, gen, tables') = (Some data, generation, tables1)"
        using "1.prems" True gt Some
        by (subst (asm) CompilationCacheRegExp_Lookup_loop.simps) simp
      then show ?thesis
        using True Some
        by (auto simp: tables1_def table_def generation_holds_def nth_list_update)
    next
      case None
      have rec: "CompilationCacheRegExp_Lookup_loop tables1 source flags (generation + 1) =
                 (r, gen, tables')"
        using "1.prems" True gt None
        by (subst (asm) CompilationCacheRegExp_Lookup_loop.simps) simp
      note IH = "1.IH" [OF True gt [symmetric] None rec]
      have len: "length tables' = length tables"
        using IH by (simp add: tables1_def)
      have ge: "generation + 1 \<le> gen"
        using IH by (cases r) auto
      have holds1: "generation_holds tables1 j source flags = generation_holds tables j source flags"
        if "j \<noteq> generation" for j
        using that by (simp add: generation_holds_def tables1_def)
      have holds0: "generation_holds tables generation source flags = None"
        using None by (simp add: generation_holds_def table_def)
      have nth: "tables' ! j =
          (if generation \<le> j \<and> j \<le> gen then Some (table_or_new (tables ! j)) else tables ! j)"
        if "j < length tables" for j
      proof (cases "j = generation")
        case True
        then show ?thesis
          using IH that ge by (simp add: tables1_def table_def)
      next
        case False
        then show ?thesis
          using IH that by (auto simp: tables1_def)
      qed
      have holds: "generation_holds tables j source flags = None"
        if "generation \<le> j" "j < gen" "j < length tables" for j
      proof (cases "j = generation")
        case True
        then show ?thesis using holds0 by simp
      next
        case False
        then have "generation + 1 \<le> j" using that by simp
        then show ?thesis
          using IH that False holds1 [of j] by (simp add: tables1_def)
      qed
      have res: "(case r of
          Some data \<Rightarrow> generation \<le> gen \<and> gen < length tables \<and>
                       generation_holds tables gen source flags = Some data
        | None \<Rightarrow> gen = max generation (length tables))"
      proof (cases r)
        case None
        then show ?thesis using IH True by (simp add: tables1_def max_def)
      next
        case (Some data)
        then have neq: "gen \<noteq> generation" using ge by simp
        have a: "gen < length tables" "generation_holds tables1 gen source flags = Some data"
          using IH Some by (simp_all add: tables1_def)
        have "generation_holds tables gen source flags = Some data"
          using a(2) holds1 [OF neq] by simp
        with a(1) ge Some show ?thesis by simp
      qed
      from len nth holds res show ?thesis by blast
    qed
  qed
qed


lemma length_allocate_generations [simp]:
  "length (allocate_generations tables n) = length tables"
  by (simp add: allocate_generations_def)

lemma nth_allocate_generations:
  "j < length tables \<Longrightarrow>
   allocate_generations tables n ! j =
     (if j < n then Some (table_or_new (tables ! j)) else tables ! j)"
  by (simp add: allocate_generations_def nth_append min_def)

lemma allocate_generations_0 [simp]: "allocate_generations tables 0 = tables"
  by (simp add: allocate_generations_def)

lemma generation_holds_Some_slot:
  "generation_holds tables g source flags = Some data \<Longrightarrow>
   tables ! g = Some (table_or_new (tables ! g))"
  by (cases "tables ! g")
    (simp_all add: generation_holds_def table_or_new_def CompilationCacheTable_LookupRegExp_def)

lemma Lookup_loop_miss:
  assumes "\<forall>j<length tables. generation_holds tables j source flags = None"
  shows "CompilationCacheRegExp_Lookup_loop tables source flags 0 =
           (None, length tables, allocate_generations tables (length tables))"
proof -
  obtain r gen tables' where
    run: "CompilationCacheRegExp_Lookup_loop tables source flags 0 = (r, gen, tables')"
    by (cases "CompilationCacheRegExp_Lookup_loop tables source flags 0") auto
  note res = Lookup_loop_result [OF run]
  have r: "r = None"
    using res assms by (cases r) auto
  with res have gen: "gen = length tables" by simp
  have "tables' = allocate_generations tables (length tables)"
    using res gen by (intro nth_equalityI) (simp_all add: nth_allocate_generations)
  with run r gen show ?thesis by simp
qed

lemma Lookup_loop_hit:
  assumes g: "g < length tables"
    and hit: "generation_holds tables g source flags = Some data"
    and before: "\<forall>j<g. generation_holds tables j source flags = None"
  shows "CompilationCacheRegExp_Lookup_loop tables source flags 0 =
           (Some data, g, allocate_generations tables g)"
proof -
  obtain r gen tables' where
    run: "CompilationCacheRegExp_Lookup_loop tables source flags 0 = (r, gen, tables')"
    by (cases "CompilationCacheRegExp_Lookup_loop tables source flags 0") auto
  note res = Lookup_loop_result [OF run]
  have none_before: "generation_holds tables j source flags = None" if "j < gen" "j < length tables" for j
    using res that by simp
  have gen_le: "gen \<le> g"
  proof (rule ccontr)
    assume "\<not> gen \<le> g"
    then have "g < gen" by simp
    from none_before [OF this g] hit show False by simp
  qed
  obtain d where r: "r = Some d"
    using res gen_le g by (cases r) auto
  with res have found: "generation_holds tables gen source flags = Some d" by simp
  have gen: "gen = g"
  proof (rule ccontr)
    assume "gen \<noteq> g"
    with gen_le have "gen < g" by simp
    with before found show False by simp
  qed
  with found hit have d: "d = data" by simp
  have slot: "tables ! g = Some (table_or_new (tables ! g))"
    using hit by (rule generation_holds_Some_slot)
  have nth: "tables' ! j = allocate_generations tables g ! j" if "j < length tables" for j
  proof (cases "j = g")
    case True
    then show ?thesis
      using res gen that slot by (simp add: nth_allocate_generations)
  next
    case False
    then show ?thesis
      using res gen that by (auto simp: nth_allocate_generations)
  qed
  have "tables' = allocate_generations tables g"
    using res nth by (intro nth_equalityI) simp_all
  with run r d gen show ?thesis by simp
qed

lemma RegExp_Lookup_miss:
  "\<forall>j<length tables. generation_holds tables j source flags = None \<Longrightarrow>
   CompilationCacheRegExp_Lookup tables k source flags =
     (None, allocate_generations tables (length tables), Increment_misses k)"
  by (simp add: CompilationCacheRegExp_Lookup_def Lookup_loop_miss)

lemma RegExp_Lookup_hit:
  "g < length tables \<Longrightarrow> generation_holds tables g source flags = Some data \<Longrightarrow>
   \<forall>j<g. generation_holds tables j source flags = None \<Longrightarrow>
   CompilationCacheRegExp_Lookup tables k source flags =
     (Some data,
      (if g \<noteq> 0 then CompilationCacheRegExp_Put (allocate_generations tables g) source flags data
       else tables),
      Increment_hits k)"
  by (simp add: CompilationCacheRegExp_Lookup_def Lookup_loop_hit)

lemma generation_holds_Put_0:
  "0 < length tables \<Longrightarrow>
   generation_holds (CompilationCacheRegExp_Put tables source flags data) 0 source flags = Some data"
  by (simp add: RegExp_Put_eq generation_holds_def table_or_new_def
      CompilationCacheTable_LookupRegExp_def CompilationCacheTable_PutRegExp_def
      map_of_table_insert)

lemma nth_RegExp_Put:
  "0 < j \<Longrightarrow> CompilationCacheRegExp_Put tables source flags data ! j = tables ! j"
  by (simp add: RegExp_Put_eq)

lemma length_RegExp_Put [simp]:
  "length (CompilationCacheRegExp_Put tables source flags data) = length tables"
  by (simp add: RegExp_Put_eq)

text \<open>
  C5. The regexp lookup probes the generations in order, from generation 0, and stops at
  the first one that holds the key. If \<open>g\<close> is that generation, the lookup returns its
  data and increments the hit counter; if \<open>g > 0\<close>, the data is also put into generation
  0 and generation \<open>g\<close> keeps its entry (its slot is the one it was); the generations
  after \<open>g\<close> are not touched. If no generation holds the key, nothing is returned and
  the miss counter is incremented once.
\<close>

theorem RegExp_Lookup_generations:
  "(g < length tables \<and> generation_holds tables g source flags = Some data \<and>
    (\<forall>j<g. generation_holds tables j source flags = None) \<longrightarrow>
      (case CompilationCacheRegExp_Lookup tables k source flags of
         (result, tables', k') \<Rightarrow>
           result = Some data \<and> k' = Increment_hits k \<and>
           tables' =
             (if g = 0 then tables
              else CompilationCacheRegExp_Put (allocate_generations tables g) source flags data) \<and>
           generation_holds tables' 0 source flags = Some data \<and>
           generation_holds tables' g source flags = Some data \<and>
           (0 < g \<longrightarrow> tables' ! g = tables ! g) \<and>
           (\<forall>j. g < j \<and> j < length tables \<longrightarrow> tables' ! j = tables ! j))) \<and>
   ((\<forall>j<length tables. generation_holds tables j source flags = None) \<longrightarrow>
      CompilationCacheRegExp_Lookup tables k source flags =
        (None, allocate_generations tables (length tables), Increment_misses k))"
proof (intro conjI impI)
  assume "\<forall>j<length tables. generation_holds tables j source flags = None"
  then show "CompilationCacheRegExp_Lookup tables k source flags =
        (None, allocate_generations tables (length tables), Increment_misses k)"
    by (rule RegExp_Lookup_miss)
next
  assume a: "g < length tables \<and> generation_holds tables g source flags = Some data \<and>
    (\<forall>j<g. generation_holds tables j source flags = None)"
  define tables' where "tables' =
    (if g = 0 then tables
     else CompilationCacheRegExp_Put (allocate_generations tables g) source flags data)"
  have run: "CompilationCacheRegExp_Lookup tables k source flags =
      (Some data, tables', Increment_hits k)"
    using a RegExp_Lookup_hit [of g tables source flags data k] by (simp add: tables'_def)
  have h0: "generation_holds tables' 0 source flags = Some data"
  proof (cases "g = 0")
    case True
    with a show ?thesis by (simp add: tables'_def)
  next
    case False
    have "0 < length (allocate_generations tables g)" using a by (cases tables) auto
    from generation_holds_Put_0 [OF this] False show ?thesis by (simp add: tables'_def)
  qed
  have same: "tables' ! j = tables ! j" if "g \<le> j" "0 < j" "j < length tables" for j
    using that by (simp add: tables'_def nth_RegExp_Put nth_allocate_generations)
  have hg: "generation_holds tables' g source flags = Some data"
  proof (cases "g = 0")
    case True
    with h0 show ?thesis by simp
  next
    case False
    then have "tables' ! g = tables ! g" using same [of g] a by simp
    with a show ?thesis by (simp add: generation_holds_def)
  qed
  show "case CompilationCacheRegExp_Lookup tables k source flags of
         (result, tables'', k') \<Rightarrow>
           result = Some data \<and> k' = Increment_hits k \<and>
           tables'' =
             (if g = 0 then tables
              else CompilationCacheRegExp_Put (allocate_generations tables g) source flags data) \<and>
           generation_holds tables'' 0 source flags = Some data \<and>
           generation_holds tables'' g source flags = Some data \<and>
           (0 < g \<longrightarrow> tables'' ! g = tables ! g) \<and>
           (\<forall>j. g < j \<and> j < length tables \<longrightarrow> tables'' ! j = tables ! j)"
    unfolding run prod.case
    using h0 hg same a by (simp add: tables'_def [symmetric])
qed

theorem RegExp_Lookup_generations_witness:
  "CompilationCacheRegExp_Lookup [None, Some [((''a+'', 0), [Smi 1])]] (counters example_cache) ''a+'' 0 =
     (Some [Smi 1], [Some [((''a+'', 0), [Smi 1])], Some [((''a+'', 0), [Smi 1])]],
      Increment_hits (counters example_cache)) \<and>
   CompilationCacheRegExp_Lookup [None, Some [((''a+'', 0), [Smi 1])]] (counters example_cache) ''b'' 0 =
     (None, [Some [], Some [((''a+'', 0), [Smi 1])]], Increment_misses (counters example_cache))"
proof -
  let ?ts = "[None, Some [((''a+'', 0::int), [Smi 1])]]"
  have h: "generation_holds ?ts 0 ''a+'' 0 = None" "generation_holds ?ts 1 ''a+'' 0 = Some [Smi 1]"
    "generation_holds ?ts 0 ''b'' 0 = None" "generation_holds ?ts 1 ''b'' 0 = None"
    by (simp_all add: generation_holds_def table_or_new_def CompilationCacheTable_LookupRegExp_def)
  have all: "(\<forall>j<2. generation_holds ?ts j ''b'' 0 = None)"
    using h by (simp add: less_Suc_eq numeral_2_eq_2)
  have one: "(\<forall>j<1. generation_holds ?ts j ''a+'' 0 = None)"
    using h by simp
  show ?thesis
    using RegExp_Lookup_generations [of 1 ?ts "''a+''" 0 "[Smi 1]" "counters example_cache"]
      RegExp_Lookup_generations [of 1 ?ts "''b''" 0 "[Smi 1]" "counters example_cache"]
      h all one
    by (simp add: allocate_generations_def table_or_new_def RegExp_Put_eq
        CompilationCacheTable_PutRegExp_def case_prod_beta prod_eq_iff)
qed

subsection \<open>Clearing\<close>

lemma generation_holds_replicate_None:
  "j < n \<Longrightarrow> generation_holds (replicate n None) j source flags = None"
  by (simp add: generation_holds_def table_or_new_def CompilationCacheTable_LookupRegExp_def)

lemma allocate_generations_replicate_None:
  "allocate_generations (replicate n None) n = replicate n (Some [])"
  by (simp add: allocate_generations_def table_or_new_def)

lemma RegExp_Lookup_after_Clear:
  "CompilationCacheRegExp_Lookup (CompilationCacheRegExp_Clear tables) k source flags =
     (None, replicate (length tables) (Some []), Increment_misses k)"
  using RegExp_Lookup_miss [of "replicate (length tables) None" source flags k]
  by (simp add: CompilationCacheRegExp_Clear_def generation_holds_replicate_None
      allocate_generations_replicate_None)

lemma DisableScriptAndEval_fields:
  "script_table (DisableScriptAndEval c) = None"
  "eval_global_table (DisableScriptAndEval c) = None"
  "eval_contextual_table (DisableScriptAndEval c) = None"
  "reg_exp_tables (DisableScriptAndEval c) = replicate (length (reg_exp_tables c)) None"
  "enabled_script_and_eval (DisableScriptAndEval c) = False"
  "counters (DisableScriptAndEval c) = counters c"
  by (simp_all add: DisableScriptAndEval_def CompilationCache_Clear_def
      CompilationCacheEvalOrScript_Clear_def CompilationCacheRegExp_Clear_def)

lemma LookupRegExp_after_Disable:
  "CompilationCache_LookupRegExp (DisableScriptAndEval c) source flags =
     (None, (DisableScriptAndEval c)\<lparr>reg_exp_tables := replicate (length (reg_exp_tables c)) (Some []),
                                     counters := Increment_misses (counters c)\<rparr>)"
  using RegExp_Lookup_after_Clear [of "reg_exp_tables c" "counters c" source flags]
  by (simp add: CompilationCache_LookupRegExp_def DisableScriptAndEval_fields
      CompilationCacheRegExp_Clear_def)

lemma LookupRegExp_after_PutRegExp:
  assumes "0 < length (reg_exp_tables c)"
  shows "fst (CompilationCache_LookupRegExp (CompilationCache_PutRegExp c source flags data)
           source flags) = Some data"
proof -
  let ?ts = "CompilationCacheRegExp_Put (reg_exp_tables c) source flags data"
  have "generation_holds ?ts 0 source flags = Some data"
    using assms by (rule generation_holds_Put_0)
  moreover have "0 < length ?ts" using assms by simp
  ultimately have "CompilationCacheRegExp_Lookup ?ts (counters c) source flags =
      (Some data, ?ts, Increment_hits (counters c))"
    using RegExp_Lookup_hit [of 0 ?ts source flags data "counters c"] by simp
  then show ?thesis
    by (simp add: CompilationCache_LookupRegExp_def CompilationCache_PutRegExp_def)
qed

subsection \<open>Disabling the cache\<close>

text \<open>
  C1, as stated, fails: \<^verbatim>\<open>DisableScriptAndEval\<close> calls \<^verbatim>\<open>Clear\<close>, and
  \<^verbatim>\<open>Clear\<close> clears the regexp region as well. A pattern that was put before is not
  found after the cache was disabled.
\<close>

theorem Disable_clears_RegExp_counterexample:
  "fst (CompilationCache_LookupRegExp
          (DisableScriptAndEval (CompilationCache_PutRegExp example_cache ''a+'' 0 [Smi 1]))
          ''a+'' 0) = None"
  by (simp add: LookupRegExp_after_Disable)

text \<open>
  C1, amended. Disabling the cache clears all four regions, the regexp region
  included: every slot is absent afterwards, and a regexp lookup of any pattern (also one
  that was put before) is a miss that increments the miss counter. The regexp region is
  still served while the cache is disabled: a pattern put after disabling is found.
\<close>

theorem Disable_clears_all_regions:
  "script_table (DisableScriptAndEval c) = None \<and>
   eval_global_table (DisableScriptAndEval c) = None \<and>
   eval_contextual_table (DisableScriptAndEval c) = None \<and>
   reg_exp_tables (DisableScriptAndEval c) = replicate (length (reg_exp_tables c)) None \<and>
   fst (CompilationCache_LookupRegExp (DisableScriptAndEval c) source flags) = None \<and>
   counters (snd (CompilationCache_LookupRegExp (DisableScriptAndEval c) source flags)) =
     Increment_misses (counters c) \<and>
   (0 < length (reg_exp_tables c) \<longrightarrow>
      fst (CompilationCache_LookupRegExp
             (CompilationCache_PutRegExp (DisableScriptAndEval c) source flags data)
             source flags) = Some data)"
proof -
  have "0 < length (reg_exp_tables c) \<Longrightarrow>
      fst (CompilationCache_LookupRegExp
             (CompilationCache_PutRegExp (DisableScriptAndEval c) source flags data)
             source flags) = Some data"
    by (rule LookupRegExp_after_PutRegExp) (simp add: DisableScriptAndEval_fields)
  then show ?thesis
    by (simp add: LookupRegExp_after_Disable DisableScriptAndEval_fields)
qed

theorem Disable_clears_all_regions_witness:
  "0 < length (reg_exp_tables (CompilationCache_PutRegExp example_cache ''a+'' 0 [Smi 1])) \<and>
   reg_exp_tables (CompilationCache_PutRegExp example_cache ''a+'' 0 [Smi 1]) =
     [Some [((''a+'', 0), [Smi 1])], None] \<and>
   reg_exp_tables (DisableScriptAndEval (CompilationCache_PutRegExp example_cache ''a+'' 0 [Smi 1])) =
     [None, None] \<and>
   fst (CompilationCache_LookupRegExp
          (CompilationCache_PutRegExp
             (DisableScriptAndEval (CompilationCache_PutRegExp example_cache ''a+'' 0 [Smi 1]))
             ''a+'' 0 [Smi 2])
          ''a+'' 0) = Some [Smi 2]"
proof -
  have ts: "reg_exp_tables (CompilationCache_PutRegExp example_cache ''a+'' 0 [Smi 1]) =
     [Some [((''a+'', 0), [Smi 1])], None]"
    by (simp add: CompilationCache_PutRegExp_def example_cache_def RegExp_Put_eq
        table_or_new_def CompilationCacheTable_PutRegExp_def)
  show ?thesis
    using Disable_clears_all_regions
      [of "CompilationCache_PutRegExp example_cache ''a+'' 0 [Smi 1]" "''a+''" 0 "[Smi 2]"]
    by (simp add: ts numeral_2_eq_2)
qed

subsection \<open>The counters\<close>

lemma Increment_simps:
  "compilation_cache_hits (Increment_hits k) = compilation_cache_hits k + 1"
  "compilation_cache_misses (Increment_hits k) = compilation_cache_misses k"
  "compilation_cache_hits (Increment_misses k) = compilation_cache_hits k"
  "compilation_cache_misses (Increment_misses k) = compilation_cache_misses k + 1"
  by (simp_all add: Increment_hits_def Increment_misses_def)

lemma exactly_one_incremented_hits: "exactly_one_incremented k (Increment_hits k)"
  by (simp add: exactly_one_incremented_def Increment_simps)

lemma exactly_one_incremented_misses: "exactly_one_incremented k (Increment_misses k)"
  by (simp add: exactly_one_incremented_def Increment_simps)

lemma not_exactly_one_incremented_same: "\<not> exactly_one_incremented k k"
  by (simp add: exactly_one_incremented_def)

lemma Script_Lookup_counters:
  "exactly_one_incremented k (snd (CompilationCacheScript_Lookup eq slot k source details mode))"
  by (simp add: CompilationCacheScript_Lookup_def Let_def exactly_one_incremented_hits
      exactly_one_incremented_misses split: option.splits)

lemma Eval_Lookup_counters:
  "exactly_one_incremented k
     (snd (CompilationCacheEval_Lookup slot k source outer ctx mode position))"
  by (simp add: CompilationCacheEval_Lookup_def Let_def exactly_one_incremented_hits
      exactly_one_incremented_misses)

lemma RegExp_Lookup_counters:
  "exactly_one_incremented k
     (snd (snd (CompilationCacheRegExp_Lookup tables k source flags)))"
  by (simp add: CompilationCacheRegExp_Lookup_def exactly_one_incremented_hits
      exactly_one_incremented_misses case_prod_beta split: option.splits)

text \<open>
  C3, amended. While the cache is enabled, every script lookup and every eval lookup
  (global or contextual) increments exactly one of the hit and the miss counter, by one;
  a regexp lookup does so in every state. While the cache is disabled, a script or eval
  lookup changes neither counter. No put changes a counter.
\<close>

theorem Lookup_counters:
  "(IsEnabledScriptAndEval c \<longrightarrow>
      exactly_one_incremented (counters c)
        (counters (snd (CompilationCache_LookupScript eq c source details mode))) \<and>
      exactly_one_incremented (counters c)
        (counters (snd (CompilationCache_LookupEval c source outer ctx mode position)))) \<and>
   (\<not> IsEnabledScriptAndEval c \<longrightarrow>
      counters (snd (CompilationCache_LookupScript eq c source details mode)) = counters c \<and>
      counters (snd (CompilationCache_LookupEval c source outer ctx mode position)) = counters c) \<and>
   exactly_one_incremented (counters c)
     (counters (snd (CompilationCache_LookupRegExp c pattern flags))) \<and>
   counters (CompilationCache_PutScript c source mode info) = counters c \<and>
   counters (CompilationCache_PutEval c source outer ctx info cell position) = counters c \<and>
   counters (CompilationCache_PutRegExp c pattern flags data) = counters c"
proof -
  have s: "IsEnabledScriptAndEval c \<Longrightarrow> exactly_one_incremented (counters c)
        (counters (snd (CompilationCache_LookupScript eq c source details mode)))"
    using Script_Lookup_counters [of "counters c" eq "script_table c" source details mode]
    by (simp add: CompilationCache_LookupScript_def case_prod_beta)
  have e: "IsEnabledScriptAndEval c \<Longrightarrow> exactly_one_incremented (counters c)
        (counters (snd (CompilationCache_LookupEval c source outer ctx mode position)))"
    using Eval_Lookup_counters [of "counters c" "eval_global_table c" source outer ctx mode position]
      Eval_Lookup_counters [of "counters c" "eval_contextual_table c" source outer
        "native_context ctx" mode position]
    by (simp add: CompilationCache_LookupEval_def case_prod_beta)
  have d: "\<not> IsEnabledScriptAndEval c \<Longrightarrow>
      counters (snd (CompilationCache_LookupScript eq c source details mode)) = counters c \<and>
      counters (snd (CompilationCache_LookupEval c source outer ctx mode position)) = counters c"
    by (simp add: CompilationCache_LookupScript_def CompilationCache_LookupEval_def)
  have r: "exactly_one_incremented (counters c)
     (counters (snd (CompilationCache_LookupRegExp c pattern flags)))"
    using RegExp_Lookup_counters [of "counters c" "reg_exp_tables c" pattern flags]
    by (simp add: CompilationCache_LookupRegExp_def case_prod_beta)
  have p: "counters (CompilationCache_PutScript c source mode info) = counters c"
    "counters (CompilationCache_PutEval c source outer ctx info cell position) = counters c"
    "counters (CompilationCache_PutRegExp c pattern flags data) = counters c"
    by (simp_all add: CompilationCache_PutScript_def CompilationCache_PutEval_def
        CompilationCache_PutRegExp_def)
  from s e d r p show ?thesis by blast
qed

theorem Lookup_counters_witness:
  "IsEnabledScriptAndEval example_cache \<and>
   \<not> IsEnabledScriptAndEval example_cache_disabled \<and>
   exactly_one_incremented (counters example_cache)
     (counters (snd (CompilationCache_LookupScript (=) example_cache ''x'' example_details_A kSloppy))) \<and>
   counters (snd (CompilationCache_LookupScript (=) example_cache_disabled ''x'' example_details_A kSloppy))
     = counters example_cache_disabled"
  using Lookup_counters [of example_cache "(=)" "''x''" example_details_A kSloppy]
    Lookup_counters [of example_cache_disabled "(=)" "''x''" example_details_A kSloppy]
  by (simp add: IsEnabledScriptAndEval_def example_cache_def example_cache_disabled_def)

text \<open>
  C3, as stated, fails in the disabled state: \<^verbatim>\<open>CompilationCache::LookupScript\<close>
  returns before the region is asked, and neither counter is incremented.
\<close>

theorem Lookup_counters_disabled_counterexample:
  "\<not> exactly_one_incremented (counters example_cache_disabled)
     (counters (snd (CompilationCache_LookupScript (=) example_cache_disabled ''x''
        example_details_A kSloppy)))"
  by (simp add: CompilationCache_LookupScript_def IsEnabledScriptAndEval_def
      example_cache_disabled_def example_cache_def exactly_one_incremented_def)

subsection \<open>The enable flag\<close>

text \<open>
  C9. When the flag is false, \<^verbatim>\<open>LookupScript\<close> and \<^verbatim>\<open>LookupEval\<close> return
  nothing and leave the whole state (tables and counters) as it is, and
  \<^verbatim>\<open>PutScript\<close> and \<^verbatim>\<open>PutEval\<close> leave the state as it is.
  \<^verbatim>\<open>LookupRegExp\<close> and \<^verbatim>\<open>PutRegExp\<close> do not read the flag: with the flag set
  to any value \<open>b\<close> they return the same result and the same state, up to the flag.
\<close>

theorem disabled_short_circuit:
  "(\<not> IsEnabledScriptAndEval c \<longrightarrow>
      CompilationCache_LookupScript eq c source details mode = (None, c) \<and>
      CompilationCache_LookupEval c source outer ctx mode position = (None, c) \<and>
      CompilationCache_PutScript c source mode info = c \<and>
      CompilationCache_PutEval c source outer ctx info cell position = c) \<and>
   CompilationCache_LookupRegExp (c\<lparr>enabled_script_and_eval := b\<rparr>) pattern flags =
     (fst (CompilationCache_LookupRegExp c pattern flags),
      (snd (CompilationCache_LookupRegExp c pattern flags))\<lparr>enabled_script_and_eval := b\<rparr>) \<and>
   CompilationCache_PutRegExp (c\<lparr>enabled_script_and_eval := b\<rparr>) pattern flags data =
     (CompilationCache_PutRegExp c pattern flags data)\<lparr>enabled_script_and_eval := b\<rparr>"
  by (simp add: CompilationCache_LookupScript_def CompilationCache_LookupEval_def
      CompilationCache_PutScript_def CompilationCache_PutEval_def
      CompilationCache_LookupRegExp_def CompilationCache_PutRegExp_def case_prod_beta)

theorem disabled_short_circuit_witness:
  "\<not> IsEnabledScriptAndEval example_cache_disabled \<and>
   CompilationCache_LookupScript (=) example_cache_disabled ''x'' example_details_A kSloppy =
     (None, example_cache_disabled) \<and>
   CompilationCache_PutScript example_cache_disabled ''x'' kSloppy example_info_A =
     example_cache_disabled \<and>
   CompilationCache_PutRegExp example_cache_disabled ''a+'' 0 [Smi 1] =
     (CompilationCache_PutRegExp example_cache ''a+'' 0 [Smi 1])\<lparr>enabled_script_and_eval := False\<rparr>"
  using disabled_short_circuit [of example_cache_disabled "(=)" "''x''" example_details_A kSloppy
      example_info_A "NativeContext 0" 0 example_info_A 0 False "''a+''" 0 "[Smi 1]"]
    disabled_short_circuit [of example_cache "(=)" "''x''" example_details_A kSloppy
      example_info_A "NativeContext 0" 0 example_info_A 0 False "''a+''" 0 "[Smi 1]"]
  by (simp add: IsEnabledScriptAndEval_def example_cache_disabled_def example_cache_def)

subsection \<open>The script region\<close>

lemma LookupScript_table_lookup_Put:
  "CompilationCacheTable_LookupScript
     (CompilationCacheTable_PutScript table source mode info) source mode = Some info"
  by (simp add: CompilationCacheTable_LookupScript_def CompilationCacheTable_PutScript_def
      map_of_table_insert)

lemma Script_Lookup_fst:
  "(fst (CompilationCacheScript_Lookup eq slot k source details mode) = Some info) =
   (CompilationCacheTable_LookupScript (CompilationCacheEvalOrScript_GetTable slot) source mode =
      Some info \<and> HasOrigin eq info details)"
  by (auto simp: CompilationCacheScript_Lookup_def Let_def split: option.splits)

lemma Script_Lookup_after_Put:
  "CompilationCacheScript_Lookup eq (CompilationCacheScript_Put slot source mode info) k
     source details mode =
   (if HasOrigin eq info details then (Some info, Increment_hits k)
    else (None, Increment_misses k))"
  by (simp add: CompilationCacheScript_Lookup_def CompilationCacheScript_Put_def Let_def
      CompilationCacheEvalOrScript_GetTable_def LookupScript_table_lookup_Put)

lemma HasOrigin_names_differ:
  "(case name_obj details of
      None \<Rightarrow> script_name (sfi_script info) \<noteq> Undefined
    | Some nm \<Rightarrow> nm \<noteq> script_name (sfi_script info)) \<Longrightarrow>
   \<not> HasOrigin eq info details"
  by (cases "name_obj details")
    (auto simp: HasOrigin_def Let_def elim!: IsString.elims String_Equals.elims)

lemma HasOrigin_provenance:
  "HasOrigin eq info details =
     (case name_obj details of
        None \<Rightarrow> script_name (sfi_script info) = Undefined
      | Some nm \<Rightarrow>
          line_offset details = script_line_offset (sfi_script info) \<and>
          column_offset details = script_column_offset (sfi_script info) \<and>
          origin_options details = script_origin_options (sfi_script info) \<and>
          (\<exists>s. nm = String s \<and> script_name (sfi_script info) = String s) \<and>
          list_all2 eq
            (case host_defined_options details of None \<Rightarrow> [] | Some a \<Rightarrow> a)
            (script_host_defined_options (sfi_script info)))"
proof (cases "name_obj details")
  case None
  then show ?thesis by (simp add: HasOrigin_def)
next
  case (Some nm)
  define opts where
    "opts = (case host_defined_options details of None \<Rightarrow> [] | Some a \<Rightarrow> a)"
  define sopts where "sopts = script_host_defined_options (sfi_script info)"
  have loop: "(length opts = length sopts \<and> HasOrigin_loop eq opts sopts 0 (length opts)) =
              list_all2 eq opts sopts"
    unfolding HasOrigin_loop_all list_all2_conv_all_nth by simp
  have names: "(IsString nm \<and> IsString (script_name (sfi_script info)) \<and>
                String_Equals nm (script_name (sfi_script info))) =
               (\<exists>s. nm = String s \<and> script_name (sfi_script info) = String s)"
    by (cases nm; cases "script_name (sfi_script info)") auto
  have "HasOrigin eq info details =
        (line_offset details = script_line_offset (sfi_script info) \<and>
         column_offset details = script_column_offset (sfi_script info) \<and>
         origin_options details = script_origin_options (sfi_script info) \<and>
         (IsString nm \<and> IsString (script_name (sfi_script info)) \<and>
          String_Equals nm (script_name (sfi_script info))) \<and>
         (length opts = length sopts \<and> HasOrigin_loop eq opts sopts 0 (length opts)))"
    unfolding HasOrigin_def Let_def Some opts_def sopts_def option.case
    by (simp only: if_False if_True split: if_split) blast
  then show ?thesis
    unfolding names loop by (simp add: Some opts_def sopts_def)
qed

lemma PutScript_example_cache:
  "CompilationCache_PutScript example_cache source mode info =
     example_cache\<lparr>script_table := Some [((source, mode), info)]\<rparr>"
  by (simp add: CompilationCache_PutScript_def CompilationCacheScript_Put_def
      CompilationCacheEvalOrScript_GetTable_def CompilationCacheTable_PutScript_def
      IsEnabledScriptAndEval_def example_cache_def)

lemma LookupScript_after_PutScript:
  "IsEnabledScriptAndEval c \<Longrightarrow>
   CompilationCache_LookupScript eq (CompilationCache_PutScript c source mode info)
     source details mode =
   (if HasOrigin eq info details
    then (Some info,
          (CompilationCache_PutScript c source mode info)
            \<lparr>counters := Increment_hits (counters c)\<rparr>)
    else (None,
          (CompilationCache_PutScript c source mode info)
            \<lparr>counters := Increment_misses (counters c)\<rparr>))"
  by (simp add: CompilationCache_LookupScript_def CompilationCache_PutScript_def
      IsEnabledScriptAndEval_def Script_Lookup_after_Put)

text \<open>
  C4, as stated, fails in both directions. A request without a name is accepted for
  every script without a name: after a put for an unnamed script, a lookup with the
  provenance of another unnamed script (other offsets, origin flags and host-defined
  options) is a hit. And a script whose name is not a string is rejected on its own
  provenance: after a put for it, a lookup with exactly its name, offsets, flags and
  options is a miss.
\<close>

theorem Script_Lookup_provenance_counterexample:
  "line_offset example_details_unnamed \<noteq> script_line_offset (sfi_script example_info_unnamed) \<and>
   column_offset example_details_unnamed \<noteq> script_column_offset (sfi_script example_info_unnamed) \<and>
   origin_options example_details_unnamed \<noteq> script_origin_options (sfi_script example_info_unnamed) \<and>
   fst (CompilationCache_LookupScript (=)
          (CompilationCache_PutScript example_cache ''f()'' kSloppy example_info_unnamed)
          ''f()'' example_details_unnamed kSloppy) = Some example_info_unnamed \<and>
   name_obj example_details_numbered = Some (script_name (sfi_script example_info_numbered)) \<and>
   line_offset example_details_numbered = script_line_offset (sfi_script example_info_numbered) \<and>
   column_offset example_details_numbered = script_column_offset (sfi_script example_info_numbered) \<and>
   origin_options example_details_numbered = script_origin_options (sfi_script example_info_numbered) \<and>
   host_defined_options example_details_numbered =
     Some (script_host_defined_options (sfi_script example_info_numbered)) \<and>
   fst (CompilationCache_LookupScript (=)
          (CompilationCache_PutScript example_cache ''f()'' kSloppy example_info_numbered)
          ''f()'' example_details_numbered kSloppy) = None"
proof -
  have en: "IsEnabledScriptAndEval example_cache"
    by (simp add: IsEnabledScriptAndEval_def example_cache_def)
  have yes: "HasOrigin (=) example_info_unnamed example_details_unnamed"
    by (simp add: HasOrigin_def example_info_unnamed_def example_details_unnamed_def
        example_script_unnamed_def)
  have no: "\<not> HasOrigin (=) example_info_numbered example_details_numbered"
    by (simp add: HasOrigin_def Let_def example_info_numbered_def example_details_numbered_def
        example_script_numbered_def)
  show ?thesis
    using yes no
    by (simp add: LookupScript_after_PutScript [OF en])
      (simp add: example_info_unnamed_def example_details_unnamed_def example_script_unnamed_def
        example_info_numbered_def example_details_numbered_def example_script_numbered_def)
qed

text \<open>
  C4, amended. A script lookup is a hit exactly when the cache is enabled, the table
  holds an entry for the source text and the language mode, and the origin check accepts
  the request for the function of that entry. After a put of a function of script A
  (while the cache is enabled), a lookup with the same source text and language mode
  is decided by how the request compares with the provenance of A. A request without a
  name is a hit exactly when A has no name; nothing else is compared. A request with a
  name is a hit exactly when both names are strings of equal content, the line and
  column offsets and the origin flags are equal, and the host-defined options (none for
  a request without them) have the same length and are pairwise equal under
  \<^verbatim>\<open>StrictEquals\<close>. A hit returns the function and increments the hit counter; in
  every other case the lookup returns nothing, increments the miss counter and leaves the
  entry of A in place. In particular a request whose name differs from the name of A
  (one of them absent, or two different objects) is a miss.
\<close>

theorem Script_Lookup_provenance:
  "((fst (CompilationCache_LookupScript eq c source details mode) = Some info) =
      (IsEnabledScriptAndEval c \<and>
       CompilationCacheTable_LookupScript
         (CompilationCacheEvalOrScript_GetTable (script_table c)) source mode = Some info \<and>
       HasOrigin eq info details)) \<and>
   (IsEnabledScriptAndEval c \<longrightarrow>
      CompilationCache_LookupScript eq (CompilationCache_PutScript c source mode info)
        source details mode =
      (if (case name_obj details of
             None \<Rightarrow> script_name (sfi_script info) = Undefined
           | Some nm \<Rightarrow>
               line_offset details = script_line_offset (sfi_script info) \<and>
               column_offset details = script_column_offset (sfi_script info) \<and>
               origin_options details = script_origin_options (sfi_script info) \<and>
               (\<exists>s. nm = String s \<and> script_name (sfi_script info) = String s) \<and>
               list_all2 eq
                 (case host_defined_options details of None \<Rightarrow> [] | Some a \<Rightarrow> a)
                 (script_host_defined_options (sfi_script info)))
       then (Some info,
             (CompilationCache_PutScript c source mode info)
               \<lparr>counters := Increment_hits (counters c)\<rparr>)
       else (None,
             (CompilationCache_PutScript c source mode info)
               \<lparr>counters := Increment_misses (counters c)\<rparr>))) \<and>
   (IsEnabledScriptAndEval c \<and>
    (case name_obj details of
       None \<Rightarrow> script_name (sfi_script info) \<noteq> Undefined
     | Some nm \<Rightarrow> nm \<noteq> script_name (sfi_script info)) \<longrightarrow>
      CompilationCache_LookupScript eq (CompilationCache_PutScript c source mode info)
        source details mode =
      (None,
       (CompilationCache_PutScript c source mode info)
         \<lparr>counters := Increment_misses (counters c)\<rparr>))"
proof (intro conjI impI)
  show "(fst (CompilationCache_LookupScript eq c source details mode) = Some info) =
      (IsEnabledScriptAndEval c \<and>
       CompilationCacheTable_LookupScript
         (CompilationCacheEvalOrScript_GetTable (script_table c)) source mode = Some info \<and>
       HasOrigin eq info details)"
    using Script_Lookup_fst [of eq "script_table c" "counters c" source details mode info]
    by (simp add: CompilationCache_LookupScript_def case_prod_beta)
next
  assume en: "IsEnabledScriptAndEval c"
  show "CompilationCache_LookupScript eq (CompilationCache_PutScript c source mode info)
        source details mode =
      (if (case name_obj details of
             None \<Rightarrow> script_name (sfi_script info) = Undefined
           | Some nm \<Rightarrow>
               line_offset details = script_line_offset (sfi_script info) \<and>
               column_offset details = script_column_offset (sfi_script info) \<and>
               origin_options details = script_origin_options (sfi_script info) \<and>
               (\<exists>s. nm = String s \<and> script_name (sfi_script info) = String s) \<and>
               list_all2 eq
                 (case host_defined_options details of None \<Rightarrow> [] | Some a \<Rightarrow> a)
                 (script_host_defined_options (sfi_script info)))
       then (Some info,
             (CompilationCache_PutScript c source mode info)
               \<lparr>counters := Increment_hits (counters c)\<rparr>)
       else (None,
             (CompilationCache_PutScript c source mode info)
               \<lparr>counters := Increment_misses (counters c)\<rparr>))"
    unfolding LookupScript_after_PutScript [OF en] HasOrigin_provenance [of eq info details] ..
next
  assume a: "IsEnabledScriptAndEval c \<and>
    (case name_obj details of
       None \<Rightarrow> script_name (sfi_script info) \<noteq> Undefined
     | Some nm \<Rightarrow> nm \<noteq> script_name (sfi_script info))"
  then have "\<not> HasOrigin eq info details" by (intro HasOrigin_names_differ) simp
  with a show "CompilationCache_LookupScript eq (CompilationCache_PutScript c source mode info)
        source details mode =
      (None,
       (CompilationCache_PutScript c source mode info)
         \<lparr>counters := Increment_misses (counters c)\<rparr>)"
    by (simp add: LookupScript_after_PutScript)
qed

theorem Script_Lookup_provenance_witness:
  "IsEnabledScriptAndEval example_cache \<and>
   CompilationCache_LookupScript (=)
     (CompilationCache_PutScript example_cache ''f()'' kSloppy example_info_A)
     ''f()'' example_details_B kSloppy =
     (None,
      example_cache
        \<lparr>script_table := Some [((''f()'', kSloppy), example_info_A)],
         counters := \<lparr>compilation_cache_hits = 0, compilation_cache_misses = 1\<rparr>\<rparr>) \<and>
   CompilationCache_LookupScript (=)
     (CompilationCache_PutScript example_cache ''f()'' kSloppy example_info_A)
     ''f()'' example_details_A kSloppy =
     (Some example_info_A,
      example_cache
        \<lparr>script_table := Some [((''f()'', kSloppy), example_info_A)],
         counters := \<lparr>compilation_cache_hits = 1, compilation_cache_misses = 0\<rparr>\<rparr>) \<and>
   fst (CompilationCache_LookupScript (=)
          (CompilationCache_PutScript example_cache ''f()'' kSloppy example_info_unnamed)
          ''f()'' example_details_unnamed kSloppy) = Some example_info_unnamed"
proof -
  have en: "IsEnabledScriptAndEval example_cache"
    by (simp add: IsEnabledScriptAndEval_def example_cache_def)
  have k: "Increment_hits (counters example_cache) =
        \<lparr>compilation_cache_hits = 1, compilation_cache_misses = 0\<rparr>"
    "Increment_misses (counters example_cache) =
        \<lparr>compilation_cache_hits = 0, compilation_cache_misses = 1\<rparr>"
    by (simp_all add: Increment_hits_def Increment_misses_def example_cache_def)
  have B: "CompilationCache_LookupScript (=)
     (CompilationCache_PutScript example_cache ''f()'' kSloppy example_info_A)
     ''f()'' example_details_B kSloppy =
     (None,
      example_cache
        \<lparr>script_table := Some [((''f()'', kSloppy), example_info_A)],
         counters := \<lparr>compilation_cache_hits = 0, compilation_cache_misses = 1\<rparr>\<rparr>)"
    using Script_Lookup_provenance [of "(=)" example_cache "''f()''" example_details_B kSloppy
        example_info_A] en
    by (simp add: PutScript_example_cache k)
      (simp add: example_details_B_def example_info_A_def example_script_A_def)
  have A: "CompilationCache_LookupScript (=)
     (CompilationCache_PutScript example_cache ''f()'' kSloppy example_info_A)
     ''f()'' example_details_A kSloppy =
     (Some example_info_A,
      example_cache
        \<lparr>script_table := Some [((''f()'', kSloppy), example_info_A)],
         counters := \<lparr>compilation_cache_hits = 1, compilation_cache_misses = 0\<rparr>\<rparr>)"
    using Script_Lookup_provenance [of "(=)" example_cache "''f()''" example_details_A kSloppy
        example_info_A] en
    by (simp add: PutScript_example_cache k)
      (simp add: example_details_A_def example_info_A_def example_script_A_def)
  have U: "fst (CompilationCache_LookupScript (=)
          (CompilationCache_PutScript example_cache ''f()'' kSloppy example_info_unnamed)
          ''f()'' example_details_unnamed kSloppy) = Some example_info_unnamed"
    using Script_Lookup_provenance [of "(=)" example_cache "''f()''" example_details_unnamed
        kSloppy example_info_unnamed] en
    by (simp add: PutScript_example_cache)
      (simp add: example_details_unnamed_def example_info_unnamed_def example_script_unnamed_def)
  from en A B U show ?thesis by simp
qed

subsection \<open>The regexp region: what a lookup and a collection do to the array\<close>

lemma RegExp_Lookup_tables:
  assumes run: "CompilationCacheRegExp_Lookup tables k source flags = (r, tables', k')"
  shows "length tables' = length tables"
    and "\<And>j. 0 < j \<Longrightarrow> j < length tables \<Longrightarrow>
           tables' ! j = tables ! j \<or> (tables ! j = None \<and> tables' ! j = Some [])"
    and "0 < length tables \<Longrightarrow>
           tables' ! 0 = Some (table_or_new (tables ! 0)) \<or>
           (\<exists>d. tables' ! 0 =
              Some (CompilationCacheTable_PutRegExp (table_or_new (tables ! 0)) source flags d))"
proof -
  obtain r0 gen tl where
    loop: "CompilationCacheRegExp_Lookup_loop tables source flags 0 = (r0, gen, tl)"
    by (cases "CompilationCacheRegExp_Lookup_loop tables source flags 0") auto
  note res = Lookup_loop_result [OF loop]
  have len: "length tl = length tables" using res by simp
  have nth: "tl ! j = (if j \<le> gen then Some (table_or_new (tables ! j)) else tables ! j)"
    if "j < length tables" for j
    using res that by simp
  have slot: "tl ! j = tables ! j \<or> (tables ! j = None \<and> tl ! j = Some [])"
    if "j < length tables" for j
    using nth [OF that] by (cases "tables ! j") (auto simp: table_or_new_def)
  have zero: "tl ! 0 = Some (table_or_new (tables ! 0))" if "0 < length tables"
    using nth [OF that] by simp
  have cases: "tables' = tl \<or>
      (\<exists>d. tables' = CompilationCacheRegExp_Put tl source flags d)"
    using run loop by (cases r0) (auto simp: CompilationCacheRegExp_Lookup_def split: if_splits)
  show "length tables' = length tables"
    using cases len by auto
  show "tables' ! j = tables ! j \<or> (tables ! j = None \<and> tables' ! j = Some [])"
    if "0 < j" "j < length tables" for j
    using cases slot [OF that(2)] that(1) by (auto simp: nth_RegExp_Put)
  show "tables' ! 0 = Some (table_or_new (tables ! 0)) \<or>
        (\<exists>d. tables' ! 0 =
           Some (CompilationCacheTable_PutRegExp (table_or_new (tables ! 0)) source flags d))"
    if "0 < length tables"
    using cases zero [OF that] that len
    by (auto simp: RegExp_Put_eq table_or_new_def)
qed

lemma Age_loop_nth:
  "i < length tables \<Longrightarrow>
   length (CompilationCacheRegExp_Age_loop tables i) = length tables \<and>
   (\<forall>j<length tables. CompilationCacheRegExp_Age_loop tables i ! j =
      (if 0 < j \<and> j \<le> i then tables ! (j - 1) else tables ! j))"
proof (induction i arbitrary: tables)
  case 0
  then show ?case by simp
next
  case (Suc i)
  let ?t1 = "tables[Suc i := tables ! i]"
  have lt: "i < length ?t1" using Suc.prems by simp
  note IH = Suc.IH [OF lt]
  show ?case
  proof (intro conjI allI impI)
    show "length (CompilationCacheRegExp_Age_loop tables (Suc i)) = length tables"
      using IH by simp
  next
    fix j assume j: "j < length tables"
    have "CompilationCacheRegExp_Age_loop tables (Suc i) ! j =
          (if 0 < j \<and> j \<le> i then ?t1 ! (j - 1) else ?t1 ! j)"
      using IH j by simp
    also have "\<dots> = (if 0 < j \<and> j \<le> Suc i then tables ! (j - 1) else tables ! j)"
    proof (cases "j = Suc i")
      case True
      then show ?thesis using Suc.prems by simp
    next
      case False
      then show ?thesis using j Suc.prems by (auto simp: nth_list_update)
    qed
    finally show "CompilationCacheRegExp_Age_loop tables (Suc i) ! j =
          (if 0 < j \<and> j \<le> Suc i then tables ! (j - 1) else tables ! j)" .
  qed
qed

lemma RegExp_Age_eq:
  assumes "0 < length tables"
  shows "CompilationCacheRegExp_Age tables = None # butlast tables"
proof (rule nth_equalityI)
  have lt: "length tables - 1 < length tables" using assms by simp
  note loop = Age_loop_nth [OF lt]
  show len: "length (CompilationCacheRegExp_Age tables) = length (None # butlast tables)"
    using loop assms by (simp add: CompilationCacheRegExp_Age_def)
  fix j assume "j < length (CompilationCacheRegExp_Age tables)"
  then have j: "j < length tables" using len assms by simp
  show "CompilationCacheRegExp_Age tables ! j = (None # butlast tables) ! j"
  proof (cases j)
    case 0
    then show ?thesis using loop assms by (simp add: CompilationCacheRegExp_Age_def)
  next
    case (Suc m)
    have "Suc m \<le> length tables - 1" using Suc j by arith
    then have "CompilationCacheRegExp_Age tables ! j = tables ! m"
      using loop j Suc by (simp add: CompilationCacheRegExp_Age_def)
    moreover have "(None # butlast tables) ! j = tables ! m"
      using Suc j by (simp add: nth_butlast)
    ultimately show ?thesis by simp
  qed
qed

subsection \<open>Ageing the regexp region\<close>

lemma generation_holds_PutRegExp_other:
  "(s, f) \<noteq> (source, flags) \<Longrightarrow>
   CompilationCacheTable_LookupRegExp (CompilationCacheTable_PutRegExp table s f d) source flags =
     CompilationCacheTable_LookupRegExp table source flags"
  by (auto simp: CompilationCacheTable_LookupRegExp_def CompilationCacheTable_PutRegExp_def
      map_of_table_insert)

lemma RegExp_call_keeps_newest:
  assumes inv: "length tables = n" "generation_holds tables 0 source flags = None"
    and n: "0 < n"
    and other: "call_key call \<noteq> (source, flags)"
  shows "length (fst (RegExp_call call (tables, k))) = n \<and>
         generation_holds (fst (RegExp_call call (tables, k))) 0 source flags = None"
proof (cases call)
  case (CallPut s f d)
  then show ?thesis
    using inv n other
    by (simp add: RegExp_Put_eq generation_holds_def table_or_new_def
        generation_holds_PutRegExp_other)
next
  case (CallLookup s f)
  obtain r tables' k' where
    run: "CompilationCacheRegExp_Lookup tables k s f = (r, tables', k')"
    by (cases "CompilationCacheRegExp_Lookup tables k s f") auto
  have len: "length tables' = length tables"
    using run by (rule RegExp_Lookup_tables(1))
  have pos: "0 < length tables" using inv n by simp
  have key: "(s, f) \<noteq> (source, flags)" using other CallLookup by simp
  have "generation_holds tables' 0 source flags = generation_holds tables 0 source flags"
    using RegExp_Lookup_tables(3) [OF run pos] generation_holds_PutRegExp_other [OF key]
    by (auto simp: generation_holds_def table_or_new_def)
  then show ?thesis
    using CallLookup run len inv by simp
qed

lemma RegExp_calls_keep_newest:
  "length tables = n \<Longrightarrow> generation_holds tables 0 source flags = None \<Longrightarrow> 0 < n \<Longrightarrow>
   (source, flags) \<notin> call_key ` set calls \<Longrightarrow>
   length (fst (RegExp_calls calls (tables, k))) = n \<and>
   generation_holds (fst (RegExp_calls calls (tables, k))) 0 source flags = None"
proof (induction calls arbitrary: tables k)
  case Nil
  then show ?case by (simp add: RegExp_calls_def)
next
  case (Cons call calls)
  obtain tables1 k1 where step: "RegExp_call call (tables, k) = (tables1, k1)"
    by (cases "RegExp_call call (tables, k)") auto
  have other: "call_key call \<noteq> (source, flags)" using Cons.prems(4) by auto
  have rest: "(source, flags) \<notin> call_key ` set calls" using Cons.prems(4) by auto
  have inv1: "length tables1 = n" "generation_holds tables1 0 source flags = None"
    using RegExp_call_keeps_newest [OF Cons.prems(1,2,3) other, of k] step by simp_all
  have "RegExp_calls (call # calls) (tables, k) = RegExp_calls calls (tables1, k1)"
    using step by (simp add: RegExp_calls_def)
  then show ?case
    using Cons.IH [OF inv1 Cons.prems(3) rest, of k1] by simp
qed

text \<open>
  C6. The regexp \<^verbatim>\<open>Age\<close> moves the table of every generation into the next
  older slot and leaves generation 0 absent: the new array is an absent slot followed by
  the old array without its last slot, whose table is dropped whatever it holds. With
  two generations, a key that was put and then aged twice, with calls for other keys
  only in between, is not found by a lookup.
\<close>

theorem RegExp_Age_rotation:
  "(1 < length tables \<longrightarrow>
      CompilationCacheRegExp_Age tables = None # butlast tables) \<and>
   (length tables = 2 \<and> (source, flags) \<notin> call_key ` set calls \<longrightarrow>
      fst (CompilationCacheRegExp_Lookup
             (CompilationCacheRegExp_Age
                (fst (RegExp_calls calls
                        (CompilationCacheRegExp_Age
                           (CompilationCacheRegExp_Put tables source flags data), k))))
             k' source flags) = None)"
proof (intro conjI impI)
  assume "1 < length tables"
  then have "0 < length tables" by (cases tables) simp_all
  then show "CompilationCacheRegExp_Age tables = None # butlast tables"
    by (rule RegExp_Age_eq)
next
  assume a: "length tables = 2 \<and> (source, flags) \<notin> call_key ` set calls"
  let ?t1 = "CompilationCacheRegExp_Age (CompilationCacheRegExp_Put tables source flags data)"
  let ?t2 = "fst (RegExp_calls calls (?t1, k))"
  let ?t3 = "CompilationCacheRegExp_Age ?t2"
  have t1: "?t1 = None # butlast (CompilationCacheRegExp_Put tables source flags data)"
    using a by (simp add: RegExp_Age_eq)
  have len1: "length ?t1 = 2" using a t1 by simp
  have h1: "generation_holds ?t1 0 source flags = None"
    by (simp add: t1 generation_holds_def table_or_new_def CompilationCacheTable_LookupRegExp_def)
  have inv2: "length ?t2 = 2 \<and> generation_holds ?t2 0 source flags = None"
    using a by (intro RegExp_calls_keep_newest [OF len1 h1]) simp_all
  then obtain x y where t2: "?t2 = [x, y]"
    by (cases ?t2; cases "tl ?t2") auto
  have t3: "?t3 = [None, x]"
    by (simp add: t2 RegExp_Age_eq)
  have hx: "generation_holds [x, y] 0 source flags = None"
    using inv2 t2 by simp
  have "\<forall>j<length ?t3. generation_holds ?t3 j source flags = None"
    unfolding t3 using hx
    by (auto simp: generation_holds_def table_or_new_def CompilationCacheTable_LookupRegExp_def
        less_Suc_eq)
  from RegExp_Lookup_miss [OF this] show "fst (CompilationCacheRegExp_Lookup ?t3 k' source flags) = None"
    by simp
qed

theorem RegExp_Age_rotation_witness:
  "CompilationCacheRegExp_Age [Some [((''a+'', 0), [Smi 1])], Some [((''b'', 0), [Smi 2])]] =
     [None, Some [((''a+'', 0), [Smi 1])]] \<and>
   fst (CompilationCacheRegExp_Lookup
          (CompilationCacheRegExp_Age
             (fst (RegExp_calls [CallPut ''b'' 0 [Smi 2], CallLookup ''c'' 1]
                     (CompilationCacheRegExp_Age
                        (CompilationCacheRegExp_Put [None, None] ''a+'' 0 [Smi 1]),
                      counters example_cache))))
          (counters example_cache) ''a+'' 0) = None"
  using RegExp_Age_rotation [of "[Some [((''a+'', 0), [Smi 1])], Some [((''b'', 0), [Smi 2])]]"
      "''a+''" 0 "[]" "[Smi 1]" "counters example_cache" "counters example_cache"]
    RegExp_Age_rotation [of "[None, None]" "''a+''" 0
      "[CallPut ''b'' 0 [Smi 2], CallLookup ''c'' 1]" "[Smi 1]" "counters example_cache"
      "counters example_cache"]
  by simp

subsection \<open>Ageing the eval region\<close>

lemma sentinel_counts_Age_entries:
  "sentinel_counts (CompilationCacheEval_Age_entries old table) h =
     filter (\<lambda>n. n \<noteq> 0) (map (\<lambda>n. n - 1) (sentinel_counts table h))"
  by (induction old table rule: CompilationCacheEval_Age_entries.induct) (simp_all add: Let_def)

lemma Eval_Age_Some:
  "CompilationCacheEval_Age old (Some table) = Some (CompilationCacheEval_Age_entries old table)"
  by (simp add: CompilationCacheEval_Age_def)

lemma fold_Eval_Age_Some:
  "\<exists>table'. fold CompilationCacheEval_Age olds (Some table) = Some table'"
  by (induction olds arbitrary: table) (simp_all add: Eval_Age_Some)

lemma sentinel_counts_fold_Age:
  "sentinel_counts table h = [K] \<Longrightarrow> int (length olds) < K \<Longrightarrow>
   sentinel_counts (table_or_new (fold CompilationCacheEval_Age olds (Some table))) h =
     [K - int (length olds)]"
proof (induction olds arbitrary: table K)
  case Nil
  then show ?case by (simp add: table_or_new_def)
next
  case (Cons old olds)
  have step: "sentinel_counts (CompilationCacheEval_Age_entries old table) h = [K - 1]"
    using Cons.prems by (simp add: sentinel_counts_Age_entries)
  have lt: "int (length olds) < K - 1" using Cons.prems by simp
  from Cons.IH [OF step lt] show ?case
    by (simp add: Eval_Age_Some)
qed

lemma sentinel_counts_fold_Age_last:
  assumes "sentinel_counts table h = [K]" "int (length olds) = K" "1 \<le> K"
  shows "sentinel_counts (table_or_new (fold CompilationCacheEval_Age olds (Some table))) h = []"
proof (cases olds rule: rev_cases)
  case Nil
  then show ?thesis using assms by simp
next
  case (snoc olds' old)
  have lt: "int (length olds') < K" using assms snoc by simp
  obtain t where t: "fold CompilationCacheEval_Age olds' (Some table) = Some t"
    using fold_Eval_Age_Some by blast
  have "sentinel_counts t h = [K - int (length olds')]"
    using sentinel_counts_fold_Age [OF assms(1) lt] t by (simp add: table_or_new_def)
  moreover have "K - int (length olds') = 1" using assms snoc by simp
  ultimately have "sentinel_counts (CompilationCacheEval_Age_entries old t) h = []"
    by (simp add: sentinel_counts_Age_entries)
  then show ?thesis
    by (simp add: snoc t Eval_Age_Some table_or_new_def)
qed

text \<open>
  C7. The eval \<^verbatim>\<open>Age\<close> decrements the countdown of every entry whose key is a
  number by one; the entry is removed when the new count is zero and keeps the new count
  otherwise. So for a table with one sentinel for the number \<open>h\<close>, seeded with
  \<open>K \<ge> 1\<close>: after \<open>j < K\<close> calls of \<^verbatim>\<open>Age\<close> (each with its own answers of the
  heap about the age of the bytecode) the sentinel is present with the count \<open>K - j\<close>,
  and the \<open>K\<close>-th call removes it.
\<close>

theorem Eval_Age_sentinel_countdown:
  "sentinel_counts (table_or_new (CompilationCacheEval_Age old (Some table))) h =
     filter (\<lambda>n. n \<noteq> 0) (map (\<lambda>n. n - 1) (sentinel_counts table h)) \<and>
   (sentinel_counts table h = [K] \<and> 1 \<le> K \<longrightarrow>
      (int (length olds) < K \<longrightarrow>
         sentinel_counts (table_or_new (fold CompilationCacheEval_Age olds (Some table))) h =
           [K - int (length olds)]) \<and>
      (int (length olds) = K \<longrightarrow>
         sentinel_counts (table_or_new (fold CompilationCacheEval_Age olds (Some table))) h = []))"
  using sentinel_counts_fold_Age [of table h K olds]
    sentinel_counts_fold_Age_last [of table h K olds]
  by (simp add: Eval_Age_Some table_or_new_def sentinel_counts_Age_entries)


theorem Eval_Age_sentinel_countdown_witness:
  "sentinel_counts
     [NumberEntry 7 2, InfoEntry (''x'', example_info_A, NativeContext 0, kSloppy, 0) example_info_A 0]
     7 = [2] \<and>
   sentinel_counts (table_or_new (fold CompilationCacheEval_Age [\<lambda>info. False]
     (Some [NumberEntry 7 2,
            InfoEntry (''x'', example_info_A, NativeContext 0, kSloppy, 0) example_info_A 0]))) 7 = [1] \<and>
   sentinel_counts (table_or_new (fold CompilationCacheEval_Age [\<lambda>info. False, \<lambda>info. True]
     (Some [NumberEntry 7 2,
            InfoEntry (''x'', example_info_A, NativeContext 0, kSloppy, 0) example_info_A 0]))) 7 = []"
  using Eval_Age_sentinel_countdown [of "\<lambda>info. False"
      "[NumberEntry 7 2, InfoEntry (''x'', example_info_A, NativeContext 0, kSloppy, 0) example_info_A 0]"
      7 2 "[\<lambda>info. False]"]
    Eval_Age_sentinel_countdown [of "\<lambda>info. False"
      "[NumberEntry 7 2, InfoEntry (''x'', example_info_A, NativeContext 0, kSloppy, 0) example_info_A 0]"
      7 2 "[\<lambda>info. False, \<lambda>info. True]"]
  by simp

subsection \<open>Allocation of tables\<close>

text \<open>
  C2, as stated, fails for the regexp region: \<^verbatim>\<open>CompilationCacheRegExp::GetTable\<close>
  stores the fresh table in the slot, and the lookup calls it for every generation it
  probes. A lookup on a cleared cache leaves both generations present.
\<close>

theorem Lookup_allocates_counterexample:
  "reg_exp_tables example_cache = [None, None] \<and>
   reg_exp_tables (snd (CompilationCache_LookupRegExp example_cache ''a+'' 0)) = [Some [], Some []]"
proof -
  have ts: "reg_exp_tables example_cache = CompilationCacheRegExp_Clear [None, None]"
    by (simp add: example_cache_def CompilationCacheRegExp_Clear_def numeral_2_eq_2)
  show ?thesis
    by (simp add: CompilationCache_LookupRegExp_def ts RegExp_Lookup_after_Clear numeral_2_eq_2)
      (simp add: CompilationCacheRegExp_Clear_def numeral_2_eq_2)
qed

lemma LookupRegExp_tables:
  "reg_exp_tables (snd (CompilationCache_LookupRegExp c source flags)) =
     fst (snd (CompilationCacheRegExp_Lookup (reg_exp_tables c) (counters c) source flags))"
  by (simp add: CompilationCache_LookupRegExp_def case_prod_beta)

text \<open>
  C2, amended. A script lookup and an eval lookup change nothing but the counters: in
  these regions a slot becomes present by a put only (a put while the cache is enabled
  leaves the slot of its region present). Every put changes the slot of its own region
  only, and a regexp put generation 0 only. A regexp lookup leaves the script and eval
  slots alone and keeps the number of generations, but it does allocate: generation 0
  is present afterwards, a generation \<open>j > 0\<close> keeps its table or, where it was absent
  and probed, holds a fresh empty table, and after a miss every generation is present
  (with its old table, or with a fresh one where it was absent).
\<close>

theorem table_allocation:
  "snd (CompilationCache_LookupScript eq c source details mode) =
     c\<lparr>counters := counters (snd (CompilationCache_LookupScript eq c source details mode))\<rparr> \<and>
   snd (CompilationCache_LookupEval c source outer ctx mode position) =
     c\<lparr>counters := counters (snd (CompilationCache_LookupEval c source outer ctx mode position))\<rparr> \<and>
   CompilationCache_PutScript c source mode info =
     c\<lparr>script_table := script_table (CompilationCache_PutScript c source mode info)\<rparr> \<and>
   CompilationCache_PutEval c source outer ctx info cell position =
     (if IsNativeContext ctx
      then c\<lparr>eval_global_table :=
               eval_global_table (CompilationCache_PutEval c source outer ctx info cell position)\<rparr>
      else c\<lparr>eval_contextual_table :=
               eval_contextual_table (CompilationCache_PutEval c source outer ctx info cell position)\<rparr>) \<and>
   CompilationCache_PutRegExp c pattern flags data =
     c\<lparr>reg_exp_tables :=
         (reg_exp_tables c)[0 := reg_exp_tables (CompilationCache_PutRegExp c pattern flags data) ! 0]\<rparr> \<and>
   (IsEnabledScriptAndEval c \<longrightarrow>
      script_table (CompilationCache_PutScript c source mode info) \<noteq> None \<and>
      (if IsNativeContext ctx
       then eval_global_table (CompilationCache_PutEval c source outer ctx info cell position)
       else eval_contextual_table (CompilationCache_PutEval c source outer ctx info cell position))
        \<noteq> None) \<and>
   (0 < length (reg_exp_tables c) \<longrightarrow>
      reg_exp_tables (CompilationCache_PutRegExp c pattern flags data) ! 0 \<noteq> None) \<and>
   script_table (snd (CompilationCache_LookupRegExp c pattern flags)) = script_table c \<and>
   eval_global_table (snd (CompilationCache_LookupRegExp c pattern flags)) = eval_global_table c \<and>
   eval_contextual_table (snd (CompilationCache_LookupRegExp c pattern flags)) =
     eval_contextual_table c \<and>
   length (reg_exp_tables (snd (CompilationCache_LookupRegExp c pattern flags))) =
     length (reg_exp_tables c) \<and>
   (\<forall>j. 0 < j \<and> j < length (reg_exp_tables c) \<longrightarrow>
      reg_exp_tables (snd (CompilationCache_LookupRegExp c pattern flags)) ! j = reg_exp_tables c ! j \<or>
      (reg_exp_tables c ! j = None \<and>
       reg_exp_tables (snd (CompilationCache_LookupRegExp c pattern flags)) ! j = Some [])) \<and>
   (0 < length (reg_exp_tables c) \<longrightarrow>
      reg_exp_tables (snd (CompilationCache_LookupRegExp c pattern flags)) ! 0 \<noteq> None) \<and>
   (fst (CompilationCache_LookupRegExp c pattern flags) = None \<longrightarrow>
      reg_exp_tables (snd (CompilationCache_LookupRegExp c pattern flags)) =
        map (\<lambda>slot. Some (table_or_new slot)) (reg_exp_tables c))"
proof -
  obtain r tables' k' where run:
    "CompilationCacheRegExp_Lookup (reg_exp_tables c) (counters c) pattern flags = (r, tables', k')"
    by (cases "CompilationCacheRegExp_Lookup (reg_exp_tables c) (counters c) pattern flags") auto
  have ts: "reg_exp_tables (snd (CompilationCache_LookupRegExp c pattern flags)) = tables'"
    using run by (simp add: LookupRegExp_tables)
  have r: "fst (CompilationCache_LookupRegExp c pattern flags) = r"
    using run by (simp add: CompilationCache_LookupRegExp_def)
  note frame = RegExp_Lookup_tables [OF run]
  have s1: "snd (CompilationCache_LookupScript eq c source details mode) =
     c\<lparr>counters := counters (snd (CompilationCache_LookupScript eq c source details mode))\<rparr>"
    by (simp add: CompilationCache_LookupScript_def case_prod_beta)
  have s2: "snd (CompilationCache_LookupEval c source outer ctx mode position) =
     c\<lparr>counters := counters (snd (CompilationCache_LookupEval c source outer ctx mode position))\<rparr>"
    by (simp add: CompilationCache_LookupEval_def case_prod_beta)
  have f1: "CompilationCache_PutScript c source mode info =
     c\<lparr>script_table := script_table (CompilationCache_PutScript c source mode info)\<rparr>"
    by (simp add: CompilationCache_PutScript_def)
  have f2: "CompilationCache_PutEval c source outer ctx info cell position =
     (if IsNativeContext ctx
      then c\<lparr>eval_global_table :=
               eval_global_table (CompilationCache_PutEval c source outer ctx info cell position)\<rparr>
      else c\<lparr>eval_contextual_table :=
               eval_contextual_table (CompilationCache_PutEval c source outer ctx info cell position)\<rparr>)"
    by (simp add: CompilationCache_PutEval_def)
  have f3: "CompilationCache_PutRegExp c pattern flags data =
     c\<lparr>reg_exp_tables :=
         (reg_exp_tables c)[0 := reg_exp_tables (CompilationCache_PutRegExp c pattern flags data) ! 0]\<rparr>"
    by (cases "reg_exp_tables c") (simp_all add: CompilationCache_PutRegExp_def RegExp_Put_eq)
  have p1: "script_table (CompilationCache_PutScript c source mode info) \<noteq> None"
    if "IsEnabledScriptAndEval c"
    using that by (simp add: CompilationCache_PutScript_def CompilationCacheScript_Put_def)
  have p2: "(if IsNativeContext ctx
       then eval_global_table (CompilationCache_PutEval c source outer ctx info cell position)
       else eval_contextual_table (CompilationCache_PutEval c source outer ctx info cell position))
        \<noteq> None"
    if "IsEnabledScriptAndEval c"
    using that by (simp add: CompilationCache_PutEval_def CompilationCacheEval_Put_def)
  have p3: "reg_exp_tables (CompilationCache_PutRegExp c pattern flags data) ! 0 \<noteq> None"
    if "0 < length (reg_exp_tables c)"
    using that by (simp add: CompilationCache_PutRegExp_def RegExp_Put_eq)
  have l1: "script_table (snd (CompilationCache_LookupRegExp c pattern flags)) = script_table c"
    "eval_global_table (snd (CompilationCache_LookupRegExp c pattern flags)) = eval_global_table c"
    "eval_contextual_table (snd (CompilationCache_LookupRegExp c pattern flags)) =
       eval_contextual_table c"
    by (simp_all add: CompilationCache_LookupRegExp_def case_prod_beta)
  have l2: "length tables' = length (reg_exp_tables c)"
    by (rule frame(1))
  have l3: "\<forall>j. 0 < j \<and> j < length (reg_exp_tables c) \<longrightarrow>
      tables' ! j = reg_exp_tables c ! j \<or>
      (reg_exp_tables c ! j = None \<and> tables' ! j = Some [])"
    using frame(2) by blast
  have l4: "tables' ! 0 \<noteq> None" if "0 < length (reg_exp_tables c)"
    using frame(3) [OF that] by auto
  have l5: "tables' = map (\<lambda>slot. Some (table_or_new slot)) (reg_exp_tables c)" if "r = None"
  proof -
    have none: "\<forall>j<length (reg_exp_tables c). generation_holds (reg_exp_tables c) j pattern flags = None"
    proof (rule ccontr)
      assume "\<not> ?thesis"
      then have "\<exists>j. (j < length (reg_exp_tables c) \<and>
          generation_holds (reg_exp_tables c) j pattern flags \<noteq> None)"
        by blast
      then obtain g where g: "g < length (reg_exp_tables c) \<and>
          generation_holds (reg_exp_tables c) g pattern flags \<noteq> None"
        and least: "\<forall>j<g. \<not> (j < length (reg_exp_tables c) \<and>
          generation_holds (reg_exp_tables c) j pattern flags \<noteq> None)"
        using exists_least_iff [of "\<lambda>j. j < length (reg_exp_tables c) \<and>
          generation_holds (reg_exp_tables c) j pattern flags \<noteq> None"] by blast
      from g obtain d where d: "generation_holds (reg_exp_tables c) g pattern flags = Some d"
        by auto
      have "\<forall>j<g. generation_holds (reg_exp_tables c) j pattern flags = None"
        using least g by auto
      from RegExp_Lookup_hit [OF _ d this, of "counters c"] g run that show False by simp
    qed
    from RegExp_Lookup_miss [OF none, of "counters c"] run show ?thesis
      by (simp add: allocate_generations_def)
  qed
  show ?thesis
    unfolding ts r
    using s1 s2 f1 f2 f3 p1 p2 p3 l1 l2 l3 l4 l5 by blast
qed


theorem table_allocation_witness:
  "IsEnabledScriptAndEval example_cache \<and>
   0 < length (reg_exp_tables example_cache) \<and>
   fst (CompilationCache_LookupRegExp example_cache ''a+'' 0) = None \<and>
   reg_exp_tables (snd (CompilationCache_LookupRegExp example_cache ''a+'' 0)) = [Some [], Some []] \<and>
   script_table (snd (CompilationCache_LookupScript (=) example_cache ''f()'' example_details_A kSloppy))
     = None \<and>
   script_table (CompilationCache_PutScript example_cache ''f()'' kSloppy example_info_A) \<noteq> None"
proof -
  have ts: "reg_exp_tables example_cache = CompilationCacheRegExp_Clear [None, None]"
    by (simp add: example_cache_def CompilationCacheRegExp_Clear_def numeral_2_eq_2)
  have miss: "fst (CompilationCache_LookupRegExp example_cache ''a+'' 0) = None"
    by (simp add: CompilationCache_LookupRegExp_def ts RegExp_Lookup_after_Clear)
  have en: "IsEnabledScriptAndEval example_cache"
    by (simp add: IsEnabledScriptAndEval_def example_cache_def)
  have tables: "reg_exp_tables example_cache = [None, None]" "script_table example_cache = None"
    by (simp_all add: example_cache_def)
  have "script_table (snd (CompilationCache_LookupScript (=) example_cache ''f()'' example_details_A kSloppy))
     = script_table (example_cache\<lparr>counters := counters (snd (CompilationCache_LookupScript (=) example_cache ''f()'' example_details_A kSloppy))\<rparr>)"
    using table_allocation [of "(=)" example_cache "''f()''" example_details_A kSloppy
      example_info_A "NativeContext 0" 0 example_info_A 0 "''a+''" 0 "[]"]
    by simp
  then have look: "script_table (snd (CompilationCache_LookupScript (=) example_cache ''f()'' example_details_A kSloppy))
     = None"
    using tables by simp
  show ?thesis
    using table_allocation [of "(=)" example_cache "''f()''" example_details_A kSloppy
      example_info_A "NativeContext 0" 0 example_info_A 0 "''a+''" 0 "[]"]
      miss en look
    by (simp add: tables table_or_new_def)
qed

end
